theory Spec2Isabelle
  imports Complex_Main "HOL-Library.Char_ord" "HOL-Library.List_Lexorder" "HOL-Library.Product_Lexorder"
    "HOL-Library.Multiset"
begin

section \<open>Data model of session.ts\<close>

text \<open>
  The object that \<open>getCurrentSession\<close> returns has the fields \<open>email\<close>,
  \<open>auth_status\<close> and \<open>google_data\<close>; a row of the table \<open>sessions\<close> (interface
  \<open>Session\<close>) has these and four more. In a row \<open>email\<close> is the text of the column;
  in the object it is whatever value the auth blob holds under that name, which is why
  the type of the field is a parameter. The column \<open>email\<close> is the
  primary key; \<open>name\<close> is nullable and never written by the program. The three
  timestamps are the integers that \<open>Date.now()\<close> returns. Strings are compared as
  SQLite's default BINARY collation does: byte by byte, a proper prefix first, which is
  the lexicographic order on \<open>char list\<close>.
\<close>

record 'e current =
  email :: 'e
  auth_status :: string
  google_data :: string

record session = "string current" +
  name :: "string option"
  last_used :: int
  created_at :: int
  updated_at :: int

text \<open>
  The table \<open>sessions\<close> is the list of its rows, in the order of insertion. The table
  \<open>ItemTable\<close> of the IDE's state database maps its unique key to the value. The
  program binds strings and integers only, so the columns it writes hold no null.
\<close>

type_synonym sessions_table = "session list"

type_synonym item_table = "string \<rightharpoonup> string"

text \<open>
  The two database files together. Both are taken to exist and to open: the IDE's
  state database with its \<open>ItemTable\<close>, and the session database, whose table
  \<open>initSessionDB\<close> creates when it is missing (then it is the empty list).
\<close>

record world =
  ag_db :: item_table
  session_db :: sessions_table

definition primary_key :: "sessions_table \<Rightarrow> bool" where
  "primary_key db = distinct (map email db)"

subsection \<open>The SQL statements of the program\<close>

text \<open>\<^verbatim>\<open>SELECT * FROM sessions WHERE email = ?\<close> with \<open>.get\<close>: the first row found, or null.\<close>

definition select_by_email :: "sessions_table \<Rightarrow> string \<Rightarrow> session option" where
  "select_by_email db e = find (\<lambda>s. email s = e) db"

text \<open>\<^verbatim>\<open>SELECT * FROM sessions ORDER BY last_used ASC, email ASC\<close>\<close>

definition select_ordered :: "sessions_table \<Rightarrow> session list" where
  "select_ordered db = sort_key (\<lambda>s. (last_used s, email s)) db"

text \<open>\<^verbatim>\<open>UPDATE sessions SET auth_status = ?, google_data = ?, updated_at = ? WHERE email = ?\<close>\<close>

definition update_blobs :: "string \<Rightarrow> string \<Rightarrow> int \<Rightarrow> string \<Rightarrow> sessions_table \<Rightarrow> sessions_table" where
  "update_blobs a g now e db =
     map (\<lambda>s. if email s = e then s\<lparr>auth_status := a, google_data := g, updated_at := now\<rparr> else s) db"

text \<open>
  \<^verbatim>\<open>INSERT INTO sessions (email, auth_status, google_data, last_used, created_at, updated_at)\<close>:
  the column \<open>name\<close> stays null. The program runs the statement only after the
  \<open>SELECT\<close> for the same email found no row, so the primary key cannot be violated.
\<close>

definition insert_session :: "string \<Rightarrow> string \<Rightarrow> string \<Rightarrow> int \<Rightarrow> int \<Rightarrow> int \<Rightarrow> sessions_table \<Rightarrow> sessions_table" where
  "insert_session e a g lu ca ua db =
     db @ [\<lparr>email = e, auth_status = a, google_data = g, name = None,
            last_used = lu, created_at = ca, updated_at = ua\<rparr>]"

text \<open>\<^verbatim>\<open>UPDATE sessions SET last_used = ? WHERE email = ?\<close>\<close>

definition update_last_used :: "int \<Rightarrow> string \<Rightarrow> sessions_table \<Rightarrow> sessions_table" where
  "update_last_used now e db = map (\<lambda>s. if email s = e then s\<lparr>last_used := now\<rparr> else s) db"

text \<open>\<^verbatim>\<open>DELETE FROM sessions WHERE email = ?\<close>\<close>

definition delete_by_email :: "string \<Rightarrow> sessions_table \<Rightarrow> sessions_table" where
  "delete_by_email e db = filter (\<lambda>s. email s \<noteq> e) db"

section \<open>JavaScript values and console output\<close>

text \<open>
  The values \<open>JSON.parse\<close> can return, and \<open>undefined\<close> for a property that is not
  there. An object is the list of its own properties, each key once; of a number only
  whether it is zero is ever looked at. \<open>JSON.parse\<close> is
  the platform's, not the program's: the functions below take it as the parameter
  \<open>JSON_parse\<close>, with \<open>None\<close> for the \<open>SyntaxError\<close> it throws.
\<close>

datatype js_value =
  JUndefined
  | JNull
  | JBool bool
  | JNumber real
  | JString string
  | JArray "js_value list"
  | JObject "(string \<times> js_value) list"

type_synonym json_parser = "string \<Rightarrow> js_value option"

text \<open>
  Reading \<open>authData.email\<close>: a \<open>TypeError\<close> (\<open>None\<close>) on \<open>null\<close>, the property of an
  object, and \<open>undefined\<close> on a boolean, a number, a string or an array, none of which
  has a property of that name.
\<close>

fun email_property :: "js_value \<Rightarrow> js_value option" where
  "email_property JNull = None"
| "email_property JUndefined = None"
| "email_property (JObject props) =
     (case map_of props ''email'' of None \<Rightarrow> Some JUndefined | Some v \<Rightarrow> Some v)"
| "email_property v = Some JUndefined"

text \<open>JavaScript's truthiness, as \<open>!email\<close> tests it.\<close>

fun truthy :: "js_value \<Rightarrow> bool" where
  "truthy JUndefined = False"
| "truthy JNull = False"
| "truthy (JBool b) = b"
| "truthy (JNumber n) = (n \<noteq> 0)"
| "truthy (JString s) = (s \<noteq> [])"
| "truthy (JArray vs) = True"
| "truthy (JObject props) = True"

text \<open>
  The program declares \<open>email: string\<close> and hands the value to SQLite unchecked, as
  the parameter of a statement that compares it with, or stores it in, the column
  \<open>email\<close>. A string is compared and stored as it is. What becomes of any other value
  is the database binding's doing, not the program's, and is the parameter \<open>bind\<close>: the
  text that the column, of TEXT affinity, compares with and stores (for a boolean or a
  number, the text of the number bound), or \<open>None\<close> when the binding refuses the value
  and throws.
\<close>

type_synonym binding = "js_value \<Rightarrow> string option"

definition bound_text :: "binding \<Rightarrow> js_value \<Rightarrow> string option" where
  "bound_text bind v = (case v of JString s \<Rightarrow> Some s | _ \<Rightarrow> bind v)"

text \<open>
  An exception that nothing catches ends the process. The only one within the model is
  the binding throwing, in the first statement of \<open>syncCurrent\<close>, before anything is
  written.
\<close>

datatype fault = BindingThrows js_value

text \<open>
  The functions of the program return nothing: what they report is what they print.
  An output is one call of \<open>console.log\<close> (standard output) or of \<open>console.error\<close>
  (standard error); a message names the text printed and carries the value put into it:
  the email of the object read from the live store, or the email of a row or of the
  command line.
\<close>

datatype message =
  ErrorParsingCurrentSession
  | NoActiveSessionFound
  | UpdatedSessionFor js_value
  | AlreadyUpToDate js_value
  | AddedNewSession js_value
  | SessionNotFound string
  | LoadedSession string
  | PleaseReloadWindow
  | SyncingCurrentSession
  | NoSessionsAvailable
  | AlreadyOnOnlySession js_value
  | SwitchingTo string
  | NoSessionsStoredYet
  | AvailableSessions
  | SessionEntry bool nat string
  | LastUsedLine int
  | CreatedLine int
  | DeletedSession string
  | UsageLoad
  | UsageDelete
  | InstallationReport

datatype console = Log message | Error message

section \<open>Reading the live store\<close>

text \<open>
  \<open>getCurrentSession\<close>: both rows are read first; \<open>googleRow?.value || '{}'\<close> gives the
  default for a missing row and for an empty value alike. The \<open>catch\<close> prints and
  returns null. The email returned is the value found, of whatever type, if truthy.
\<close>

definition getCurrentSession :: "json_parser \<Rightarrow> item_table \<Rightarrow> console list \<times> js_value current option" where
  "getCurrentSession JSON_parse ag =
     (let authRow = ag ''antigravityAuthStatus'';
          googleRow = ag ''google.antigravity''
      in case authRow of
           None \<Rightarrow> ([], None)
         | Some v \<Rightarrow>
             (case JSON_parse v of
                None \<Rightarrow> ([Error ErrorParsingCurrentSession], None)
              | Some authData \<Rightarrow>
                  (case email_property authData of
                     None \<Rightarrow> ([Error ErrorParsingCurrentSession], None)
                   | Some em \<Rightarrow>
                       if \<not> truthy em then ([], None)
                       else ([], Some \<lparr>email = em, auth_status = v,
                                       google_data = (case googleRow of
                                                        None \<Rightarrow> ''{}''
                                                      | Some g \<Rightarrow> if g = [] then ''{}'' else g)\<rparr>))))"

section \<open>The sync engine\<close>

text \<open>
  \<open>syncCurrent\<close>; \<open>now\<close> is the value of \<open>Date.now()\<close>. The three statements bind
  \<open>current.email\<close>; \<open>key\<close> is its text in the column, and the first of them is where a
  value that cannot be bound throws. The comparison \<open>!==\<close> of two strings is equality of
  the strings.
\<close>

definition syncCurrent :: "json_parser \<Rightarrow> binding \<Rightarrow> int \<Rightarrow> world \<Rightarrow> fault + (console list \<times> world)" where
  "syncCurrent JSON_parse bind now w =
     (case getCurrentSession JSON_parse (ag_db w) of
        (out, None) \<Rightarrow> Inr (out @ [Log NoActiveSessionFound], w)
      | (out, Some cur) \<Rightarrow>
          (case bound_text bind (email cur) of
             None \<Rightarrow> Inl (BindingThrows (email cur))
           | Some key \<Rightarrow>
               (case select_by_email (session_db w) key of
                  Some existing \<Rightarrow>
                    if auth_status existing \<noteq> auth_status cur \<or> google_data existing \<noteq> google_data cur
                    then Inr (out @ [Log (UpdatedSessionFor (email cur))],
                              w\<lparr>session_db :=
                                  update_blobs (auth_status cur) (google_data cur) now key (session_db w)\<rparr>)
                    else Inr (out @ [Log (AlreadyUpToDate (email cur))], w)
                | None \<Rightarrow>
                    Inr (out @ [Log (AddedNewSession (email cur))],
                         w\<lparr>session_db :=
                             insert_session key (auth_status cur) (google_data cur) 0 now now (session_db w)\<rparr>))))"

section \<open>The rotation selector\<close>

text \<open>\<open>Array.prototype.findIndex\<close>: the first index whose element satisfies the test; \<open>None\<close> is \<open>-1\<close>.\<close>

fun findIndex :: "('a \<Rightarrow> bool) \<Rightarrow> 'a list \<Rightarrow> nat option" where
  "findIndex p [] = None"
| "findIndex p (x # xs) =
     (if p x then Some 0 else map_option Suc (findIndex p xs))"

text \<open>
  \<open>getNextSession(currentEmail?: string)\<close>. The argument left out is \<open>None\<close>. The test
  \<open>!currentEmail\<close> holds for \<open>undefined\<close> and for the empty string.
\<close>

definition getNextSession :: "sessions_table \<Rightarrow> string option \<Rightarrow> session option" where
  "getNextSession db currentEmail =
     (let sessions = select_ordered db in
      if length sessions = 0 then None
      else if length sessions = 1 then Some (sessions ! 0)
      else (case currentEmail of
              None \<Rightarrow> Some (sessions ! 0)
            | Some ce \<Rightarrow>
                if ce = [] then Some (sessions ! 0)
                else (case findIndex (\<lambda>s. email s = ce) sessions of
                        None \<Rightarrow> Some (sessions ! 0)
                      | Some currentIndex \<Rightarrow>
                          Some (sessions ! ((currentIndex + 1) mod length sessions)))))"

section \<open>The session loader\<close>

text \<open>
  \<open>loadSession\<close>: the two \<^verbatim>\<open>INSERT OR REPLACE INTO ItemTable\<close> statements, then the
  update of \<open>last_used\<close> with the value \<open>now\<close> of \<open>Date.now()\<close>.
\<close>

definition loadSession :: "int \<Rightarrow> string \<Rightarrow> world \<Rightarrow> console list \<times> world" where
  "loadSession now e w =
     (case select_by_email (session_db w) e of
        None \<Rightarrow> ([Error (SessionNotFound e)], w)
      | Some s \<Rightarrow>
          ([Log (LoadedSession e), Log PleaseReloadWindow],
           w\<lparr>ag_db := ((ag_db w)(''antigravityAuthStatus'' \<mapsto> auth_status s))
                          (''google.antigravity'' \<mapsto> google_data s),
             session_db := update_last_used now e (session_db w)\<rparr>))"

text \<open>
  \<open>current?.email\<close> as the argument of \<open>getNextSession\<close>. The value is truthy. A string
  is passed on. A value that is no string passes the test \<open>!currentEmail\<close> and is
  \<open>===\<close> to the email of no row, so that \<open>findIndex\<close> gives \<open>-1\<close>: the call then returns
  what it returns when the argument is left out, null on the empty table and the first
  row otherwise.
\<close>

definition currentEmail_of :: "js_value current option \<Rightarrow> string option" where
  "currentEmail_of cur =
     (case cur of
        None \<Rightarrow> None
      | Some c \<Rightarrow> (case email c of JString e \<Rightarrow> Some e | _ \<Rightarrow> None))"

text \<open>
  \<open>next\<close>: \<open>now1\<close> is the clock as \<open>syncCurrent\<close> reads it, \<open>now2\<close> as \<open>loadSession\<close>
  reads it afterwards. \<open>nextSession.email === current.email\<close> compares the text of a row
  with the value read: they are equal when the value is that string.
\<close>

definition "next" :: "json_parser \<Rightarrow> binding \<Rightarrow> int \<Rightarrow> int \<Rightarrow> world \<Rightarrow> fault + (console list \<times> world)" where
  "next JSON_parse bind now1 now2 w =
     (case syncCurrent JSON_parse bind now1 w of
        Inl f \<Rightarrow> Inl f
      | Inr (out1, w1) \<Rightarrow>
          (case getCurrentSession JSON_parse (ag_db w1) of
             (out2, cur) \<Rightarrow>
               (case getNextSession (session_db w1) (currentEmail_of cur) of
                  None \<Rightarrow>
                    Inr (Log SyncingCurrentSession # out1 @ out2 @ [Log NoSessionsAvailable], w1)
                | Some nextSession \<Rightarrow>
                    if cur \<noteq> None \<and> JString (email nextSession) = email (the cur)
                    then Inr (Log SyncingCurrentSession # out1 @ out2
                                @ [Log (AlreadyOnOnlySession (email (the cur)))], w1)
                    else (case loadSession now2 (email nextSession) w1 of
                            (out3, w2) \<Rightarrow>
                              Inr (Log SyncingCurrentSession # out1 @ out2
                                     @ Log (SwitchingTo (email nextSession)) # out3, w2)))))"

text \<open>
  \<open>listSessions\<close> prints and changes nothing. \<^verbatim>\<open>ORDER BY last_used DESC\<close> leaves the
  order of rows with the same \<open>last_used\<close> to SQLite; the model keeps them in the order
  of insertion. A \<open>last_used\<close> of 0 is printed as "never" by \<open>LastUsedLine 0\<close>.
\<close>

fun list_entries :: "js_value current option \<Rightarrow> nat \<Rightarrow> session list \<Rightarrow> console list" where
  "list_entries cur index [] = []"
| "list_entries cur index (s # ss) =
     [Log (SessionEntry (cur \<noteq> None \<and> JString (email s) = email (the cur)) (index + 1) (email s)),
      Log (LastUsedLine (last_used s)),
      Log (CreatedLine (created_at s))] @ list_entries cur (index + 1) ss"

definition listSessions :: "json_parser \<Rightarrow> world \<Rightarrow> console list" where
  "listSessions JSON_parse w =
     (let sessions = sort_key (\<lambda>s. - last_used s) (session_db w) in
      if length sessions = 0 then [Log NoSessionsStoredYet]
      else (case getCurrentSession JSON_parse (ag_db w) of
              (out, cur) \<Rightarrow> Log AvailableSessions # out @ list_entries cur 0 sessions))"

definition loadByEmail :: "int \<Rightarrow> string \<Rightarrow> world \<Rightarrow> console list \<times> world" where
  "loadByEmail now e w = loadSession now e w"

definition deleteSession :: "string \<Rightarrow> world \<Rightarrow> console list \<times> world" where
  "deleteSession e w =
     ([Log (DeletedSession e)], w\<lparr>session_db := delete_by_email e (session_db w)\<rparr>)"

section \<open>The command line\<close>

text \<open>
  The \<open>switch\<close> at the end of the file, on \<open>process.argv[2]\<close> and \<open>process.argv[3]\<close>
  (\<open>None\<close> when missing). The result is the exit status of the process, what it
  printed, and the two databases afterwards. \<open>process.exit(1)\<close> ends the run with
  status 1; a run that reaches the end of the script ends with status 0; an exception
  that nothing catches ends it where it is thrown (\<open>Inl\<close>).
  \<open>setupKeybindings\<close> copies files and writes the keybindings: it opens neither
  database, and its work on the file system is left out.
\<close>

definition main :: "json_parser \<Rightarrow> binding \<Rightarrow> int \<Rightarrow> int \<Rightarrow> string option \<Rightarrow> string option \<Rightarrow> world
    \<Rightarrow> fault + (nat \<times> console list \<times> world)" where
  "main JSON_parse bind now1 now2 command arg w =
     (if command = Some ''next'' then
        (case next JSON_parse bind now1 now2 w of
           Inl f \<Rightarrow> Inl f
         | Inr (out, w') \<Rightarrow> Inr (0, out, w'))
      else if command = Some ''sync'' then
        (case syncCurrent JSON_parse bind now1 w of
           Inl f \<Rightarrow> Inl f
         | Inr (out, w') \<Rightarrow> Inr (0, out, w'))
      else if command = Some ''list'' then Inr (0, listSessions JSON_parse w, w)
      else if command = Some ''load'' then
        (if arg = None \<or> arg = Some [] then Inr (1, [Error UsageLoad], w)
         else (case loadByEmail now1 (the arg) w of (out, w') \<Rightarrow> Inr (0, out, w')))
      else if command = Some ''delete'' then
        (if arg = None \<or> arg = Some [] then Inr (1, [Error UsageDelete], w)
         else (case deleteSession (the arg) w of (out, w') \<Rightarrow> Inr (0, out, w')))
      else Inr (0, [Log InstallationReport], w))"

section \<open>The successor map\<close>

text \<open>
  The identity that follows \<open>e\<close> in the rotation: the email of
  \<open>getNextSession(e)\<close>; and the identity reached from \<open>e\<close> after \<open>n\<close> such steps.
\<close>

definition successor :: "sessions_table \<Rightarrow> string \<Rightarrow> string option" where
  "successor db e = map_option email (getNextSession db (Some e))"

fun successors :: "sessions_table \<Rightarrow> nat \<Rightarrow> string \<Rightarrow> string option" where
  "successors db 0 e = Some e"
| "successors db (Suc n) e =
     (case successors db n e of None \<Rightarrow> None | Some e' \<Rightarrow> successor db e')"

section \<open>Runs of the program\<close>

text \<open>
  \<open>sync_repeatedly\<close>: one \<open>syncCurrent\<close> for each clock reading of the list, nothing
  else touching the two databases in between; the result keeps what each call printed.
\<close>

fun sync_repeatedly :: "json_parser \<Rightarrow> binding \<Rightarrow> int list \<Rightarrow> world \<Rightarrow> fault + (console list list \<times> world)" where
  "sync_repeatedly JSON_parse bind [] w = Inr ([], w)"
| "sync_repeatedly JSON_parse bind (now # nows) w =
     (case syncCurrent JSON_parse bind now w of
        Inl f \<Rightarrow> Inl f
      | Inr (out, w1) \<Rightarrow>
          (case sync_repeatedly JSON_parse bind nows w1 of
             Inl f \<Rightarrow> Inl f
           | Inr (outs, w2) \<Rightarrow> Inr (out # outs, w2)))"

text \<open>
  What can happen to the two databases between two moments: a command of the program
  that writes (with the clock readings it takes), or the IDE replacing the contents of
  its own state database. A command that ends in an exception has written nothing: the
  binding throws in the first statement of \<open>syncCurrent\<close>, and nothing after
  \<open>syncCurrent\<close> in \<open>next\<close> binds a value that is no string.
\<close>

datatype command =
  Sync int
  | Load string int
  | Next int int
  | Delete string
  | IdeWrites item_table

fun step :: "json_parser \<Rightarrow> binding \<Rightarrow> command \<Rightarrow> world \<Rightarrow> world" where
  "step JSON_parse bind (Sync now) w =
     (case syncCurrent JSON_parse bind now w of Inl f \<Rightarrow> w | Inr (out, w') \<Rightarrow> w')"
| "step JSON_parse bind (Load e now) w = snd (loadByEmail now e w)"
| "step JSON_parse bind (Next now1 now2) w =
     (case next JSON_parse bind now1 now2 w of Inl f \<Rightarrow> w | Inr (out, w') \<Rightarrow> w')"
| "step JSON_parse bind (Delete e) w = snd (deleteSession e w)"
| "step JSON_parse bind (IdeWrites ag) w = w\<lparr>ag_db := ag\<rparr>"

fun run :: "json_parser \<Rightarrow> binding \<Rightarrow> command list \<Rightarrow> world \<Rightarrow> world" where
  "run JSON_parse bind [] w = w"
| "run JSON_parse bind (c # cs) w = run JSON_parse bind cs (step JSON_parse bind c w)"

text \<open>The values of \<open>Date.now()\<close> that a command may read, in the order of reading.\<close>

fun readings :: "command \<Rightarrow> int list" where
  "readings (Sync now) = [now]"
| "readings (Load e now) = [now]"
| "readings (Next now1 now2) = [now1, now2]"
| "readings (Delete e) = []"
| "readings (IdeWrites ag) = []"

definition all_readings :: "command list \<Rightarrow> int list" where
  "all_readings cs = concat (map readings cs)"

text \<open>
  The stored auth blob names the key of its row: it parses, and the \<open>email\<close> property
  of the parsed value is the string in the column \<open>email\<close>.
\<close>

definition blob_names_key :: "json_parser \<Rightarrow> session \<Rightarrow> bool" where
  "blob_names_key JSON_parse r =
     (case JSON_parse (auth_status r) of
        None \<Rightarrow> False
      | Some authData \<Rightarrow> email_property authData = Some (JString (email r)))"

text \<open>
  The stored auth blob binds to the key of its row: it parses, the \<open>email\<close> property of
  the parsed value is truthy, and the text of that value in the column is the key.
\<close>

definition blob_binds_key :: "json_parser \<Rightarrow> binding \<Rightarrow> session \<Rightarrow> bool" where
  "blob_binds_key JSON_parse bind r =
     (case JSON_parse (auth_status r) of
        None \<Rightarrow> False
      | Some authData \<Rightarrow>
          (case email_property authData of
             None \<Rightarrow> False
           | Some em \<Rightarrow> truthy em \<and> bound_text bind em = Some (email r)))"

text \<open>The \<open>email\<close> property of the stored auth blob is a string.\<close>

definition blob_email_is_string :: "json_parser \<Rightarrow> session \<Rightarrow> bool" where
  "blob_email_is_string JSON_parse r =
     (case JSON_parse (auth_status r) of
        None \<Rightarrow> False
      | Some authData \<Rightarrow>
          (case email_property authData of
             Some (JString e) \<Rightarrow> True
           | _ \<Rightarrow> False))"

section \<open>Example data\<close>

text \<open>
  A row as the test suite inserts it: both blobs \<open>{}\<close>, the timestamps given. The three
  sessions of the rotation scenario, and a table in which one row has the empty email.
\<close>

definition test_row :: "string \<Rightarrow> int \<Rightarrow> session" where
  "test_row e t = \<lparr>email = e, auth_status = ''{}'', google_data = ''{}'', name = None,
                    last_used = t, created_at = 0, updated_at = 0\<rparr>"

definition scenario_db :: sessions_table where
  "scenario_db = [test_row ''c@x.com'' 3000, test_row ''a@x.com'' 1000, test_row ''b@x.com'' 2000]"

definition empty_email_db :: sessions_table where
  "empty_email_db = [test_row [] 0, test_row ''b@x.com'' 1]"

text \<open>
  The live store of the sync scenario holds the auth blob of \<open>u@x.com\<close> and no
  secondary row. \<open>example_parse\<close> agrees with \<open>JSON.parse\<close> on the blobs used here and
  rejects every other text. \<open>example_bind\<close> binds a boolean as the integer 1 or 0, of
  which the column keeps the text; no other value that is no string occurs in the
  examples.
\<close>

definition u_auth :: string where
  \<open>u_auth = ''{"email":"u@x.com","name":"U"}''\<close>

definition u_auth_renamed :: string where
  \<open>u_auth_renamed = ''{"email":"u@x.com","name":"V"}''\<close>

definition true_auth :: string where
  \<open>true_auth = ''{"email":true}''\<close>

definition example_parse :: json_parser where
  "example_parse v =
     (if v = u_auth then Some (JObject [(''email'', JString ''u@x.com''), (''name'', JString ''U'')])
      else if v = u_auth_renamed then Some (JObject [(''email'', JString ''u@x.com''), (''name'', JString ''V'')])
      else if v = true_auth then Some (JObject [(''email'', JBool True)])
      else if v = ''{}'' then Some (JObject [])
      else None)"

definition example_bind :: binding where
  "example_bind v = (case v of JBool b \<Rightarrow> Some (if b then ''1'' else ''0'') | _ \<Rightarrow> None)"

definition live_u :: item_table where
  "live_u = [''antigravityAuthStatus'' \<mapsto> u_auth]"

definition live_u_renamed :: item_table where
  "live_u_renamed = [''antigravityAuthStatus'' \<mapsto> u_auth_renamed]"

definition live_true :: item_table where
  "live_true = [''antigravityAuthStatus'' \<mapsto> true_auth]"

definition u_row :: "int \<Rightarrow> session" where
  "u_row now = \<lparr>email = ''u@x.com'', auth_status = u_auth, google_data = ''{}'', name = None,
                 last_used = 0, created_at = now, updated_at = now\<rparr>"

definition true_row :: "int \<Rightarrow> session" where
  "true_row now = \<lparr>email = ''1'', auth_status = true_auth, google_data = ''{}'', name = None,
                    last_used = 0, created_at = now, updated_at = now\<rparr>"

section \<open>Properties of the SQL statements and of findIndex\<close>

lemma findIndex_None_iff: "findIndex p xs = None \<longleftrightarrow> (\<forall>x \<in> set xs. \<not> p x)"
  by (induction xs) auto

lemma findIndex_Some_first:
  "findIndex p xs = Some i \<Longrightarrow> i < length xs \<and> p (xs ! i) \<and> (\<forall>j < i. \<not> p (xs ! j))"
proof (induction xs arbitrary: i)
  case Nil
  then show ?case by simp
next
  case (Cons x xs)
  show ?case
  proof (cases "p x")
    case True
    with Cons.prems show ?thesis by simp
  next
    case False
    with Cons.prems obtain k where k: "findIndex p xs = Some k" "i = Suc k"
      by auto
    from Cons.IH [OF k(1)] False k(2) show ?thesis
      by (auto simp: nth_Cons split: nat.splits)
  qed
qed

lemma findIndex_distinct_key:
  assumes "distinct (map f xs)" and "i < length xs"
  shows "findIndex (\<lambda>s. f s = f (xs ! i)) xs = Some i"
proof (cases "findIndex (\<lambda>s. f s = f (xs ! i)) xs")
  case None
  with assms(2) show ?thesis
    by (auto simp: findIndex_None_iff)
next
  case (Some k)
  from findIndex_Some_first [OF Some] have k: "k < length xs" "f (xs ! k) = f (xs ! i)"
    by auto
  with assms have "k = i"
    by (metis length_map nth_eq_iff_index_eq nth_map)
  with Some show ?thesis by simp
qed

lemma select_ordered_mset [simp]: "mset (select_ordered db) = mset db"
  by (simp add: select_ordered_def)

lemma select_ordered_set [simp]: "set (select_ordered db) = set db"
  by (simp add: select_ordered_def)

lemma select_ordered_length [simp]: "length (select_ordered db) = length db"
  by (simp add: select_ordered_def)

lemma select_ordered_sorted: "sorted (map (\<lambda>s. (last_used s, email s)) (select_ordered db))"
  by (simp add: select_ordered_def)

lemma select_ordered_primary_key: "primary_key db \<Longrightarrow> primary_key (select_ordered db)"
proof -
  have "mset (map email (select_ordered db)) = mset (map email db)"
    by simp
  then show "primary_key db \<Longrightarrow> primary_key (select_ordered db)"
    unfolding primary_key_def by (metis mset_eq_imp_distinct_iff)
qed

lemma select_ordered_single [simp]: "select_ordered [s] = [s]"
  by (simp add: select_ordered_def)

lemma getNextSession_many:
  assumes "2 \<le> length db"
  shows "getNextSession db cur =
    (case cur of
       None \<Rightarrow> Some (select_ordered db ! 0)
     | Some ce \<Rightarrow>
         if ce = [] then Some (select_ordered db ! 0)
         else (case findIndex (\<lambda>s. email s = ce) (select_ordered db) of
                 None \<Rightarrow> Some (select_ordered db ! 0)
               | Some i \<Rightarrow> Some (select_ordered db ! ((i + 1) mod length db))))"
proof -
  from assms have "length (select_ordered db) \<noteq> 0" "length (select_ordered db) \<noteq> 1"
    by auto
  then show ?thesis
    unfolding getNextSession_def Let_def by (simp only: if_False select_ordered_length)
qed

lemma scenario_ordered:
  "select_ordered scenario_db = [test_row ''a@x.com'' 1000, test_row ''b@x.com'' 2000, test_row ''c@x.com'' 3000]"
  by (simp add: select_ordered_def scenario_db_def test_row_def)

lemma scenario_primary_key: "primary_key scenario_db"
  by (simp add: primary_key_def scenario_db_def test_row_def)

lemma mset_rotate_eq: "mset (rotate n xs) = mset xs"
proof -
  have "mset (rotate n xs) = mset (drop (n mod length xs) xs) + mset (take (n mod length xs) xs)"
    by (simp only: rotate_drop_take mset_append)
  also have "\<dots> = mset (take (n mod length xs) xs @ drop (n mod length xs) xs)"
    by (simp only: mset_append add.commute)
  finally show ?thesis by (simp only: append_take_drop_id)
qed

lemma mod_shift_neq:
  fixes i k n :: nat
  assumes "0 < k" and "k < n" and "i < n"
  shows "(i + k) mod n \<noteq> i"
proof (cases "i + k < n")
  case True
  with assms show ?thesis by simp
next
  case False
  with assms have "(i + k) mod n = i + k - n"
    by (simp add: le_mod_geq)
  with assms False show ?thesis by linarith
qed

lemma successor_at:
  assumes pk: "primary_key db" and ne: "\<forall>s \<in> set db. email s \<noteq> []" and i: "i < length db"
  shows "successor db (email (select_ordered db ! i)) = Some (email (select_ordered db ! ((i + 1) mod length db)))"
proof (cases "2 \<le> length db")
  case True
  from i have "select_ordered db ! i \<in> set db"
    by (metis nth_mem select_ordered_length select_ordered_set)
  with ne have "email (select_ordered db ! i) \<noteq> []" by blast
  moreover from pk i have "findIndex (\<lambda>s. email s = email (select_ordered db ! i)) (select_ordered db) = Some i"
    using select_ordered_primary_key [of db] by (simp add: primary_key_def findIndex_distinct_key)
  ultimately show ?thesis
    using True by (simp add: successor_def getNextSession_many)
next
  case False
  with i have l: "length db = 1" by simp
  then obtain s where "db = [s]" by (cases db) auto
  with i show ?thesis by (simp add: successor_def getNextSession_def)
qed

lemma successors_at:
  assumes pk: "primary_key db" and ne: "\<forall>s \<in> set db. email s \<noteq> []" and i: "i < length db"
  shows "successors db k (email (select_ordered db ! i)) = Some (email (select_ordered db ! ((i + k) mod length db)))"
proof (induction k)
  case 0
  from i show ?case by simp
next
  case (Suc k)
  from i have "0 < length db" by linarith
  then have "(i + k) mod length db < length db" by simp
  from successor_at [OF pk ne this] Suc.IH show ?case
    by (simp add: mod_Suc_eq)
qed

lemma successors_cycle_list:
  assumes pk: "primary_key db" and ne: "\<forall>s \<in> set db. email s \<noteq> []" and i: "i < length db"
  shows "map (\<lambda>k. successors db k (email (select_ordered db ! i))) [0..<length db]
       = map (Some \<circ> email) (rotate i (select_ordered db))"
proof (rule nth_equalityI)
  show "length (map (\<lambda>k. successors db k (email (select_ordered db ! i))) [0..<length db])
      = length (map (Some \<circ> email) (rotate i (select_ordered db)))"
    by simp
next
  fix k
  assume "k < length (map (\<lambda>k. successors db k (email (select_ordered db ! i))) [0..<length db])"
  then have k: "k < length db" by simp
  then show "map (\<lambda>k. successors db k (email (select_ordered db ! i))) [0..<length db] ! k
           = map (Some \<circ> email) (rotate i (select_ordered db)) ! k"
    by (simp add: successors_at [OF pk ne i] nth_rotate)
qed

section \<open>The rotation selector: claims C1 and C3\<close>

text \<open>
  C1 (as amended). The list the selector works on is the table sorted by
  \<open>(last_used, email)\<close> ascending, a permutation of the rows. On the empty table the
  result is none; on a table of one row it is that row, whatever the current identity;
  on a table of two rows or more it is the first row of the sorted list when the current
  identity is none, is the empty string, or is the email of no row, and otherwise the
  row after the one of the current identity, the first row following the last.
\<close>

theorem getNextSession_cases:
  assumes "primary_key db"
  shows "sorted (map (\<lambda>s. (last_used s, email s)) (select_ordered db))
       \<and> mset (select_ordered db) = mset db
       \<and> (db = [] \<longrightarrow> getNextSession db cur = None)
       \<and> (\<forall>s. db = [s] \<longrightarrow> getNextSession db cur = Some s)
       \<and> (2 \<le> length db \<and> (cur = None \<or> cur = Some [] \<or> (\<forall>s \<in> set db. cur \<noteq> Some (email s)))
            \<longrightarrow> getNextSession db cur = Some (select_ordered db ! 0))
       \<and> (\<forall>i. 2 \<le> length db \<and> i < length db \<and> cur = Some (email (select_ordered db ! i))
                \<and> email (select_ordered db ! i) \<noteq> []
            \<longrightarrow> getNextSession db cur = Some (select_ordered db ! ((i + 1) mod length db)))"
proof -
  have empty: "db = [] \<longrightarrow> getNextSession db cur = None"
    by (simp add: getNextSession_def select_ordered_def)
  have single: "\<forall>s. db = [s] \<longrightarrow> getNextSession db cur = Some s"
    by (simp add: getNextSession_def)
  have first: "getNextSession db cur = Some (select_ordered db ! 0)"
    if "2 \<le> length db" and "cur = None \<or> cur = Some [] \<or> (\<forall>s \<in> set db. cur \<noteq> Some (email s))"
  proof -
    from that(2) consider "cur = None" | "cur = Some []"
      | e where "cur = Some e" "e \<noteq> []" "\<forall>s \<in> set db. e \<noteq> email s"
      by (cases cur) auto
    then show ?thesis
    proof cases
      case 1
      with that(1) show ?thesis by (simp add: getNextSession_many)
    next
      case 2
      with that(1) show ?thesis by (simp add: getNextSession_many)
    next
      case 3
      then have "findIndex (\<lambda>s. email s = e) (select_ordered db) = None"
        by (auto simp: findIndex_None_iff)
      with 3 that(1) show ?thesis by (simp add: getNextSession_many)
    qed
  qed
  have succ: "getNextSession db cur = Some (select_ordered db ! ((i + 1) mod length db))"
    if "2 \<le> length db" and "i < length db" and "cur = Some (email (select_ordered db ! i))"
      and "email (select_ordered db ! i) \<noteq> []" for i
  proof -
    from assms have "distinct (map email (select_ordered db))"
      using select_ordered_primary_key by (simp add: primary_key_def)
    with that(2) have "findIndex (\<lambda>s. email s = email (select_ordered db ! i)) (select_ordered db) = Some i"
      by (simp add: findIndex_distinct_key)
    with that show ?thesis by (simp add: getNextSession_many)
  qed
  from empty single first succ select_ordered_sorted [of db] show ?thesis
    by (simp only: select_ordered_mset) blast
qed


text \<open>
  The theorem at the empty table, at a table of one row, and at the rotation scenario:
  \<open>a@x.com\<close> (1000), \<open>b@x.com\<close> (2000), \<open>c@x.com\<close> (3000).
\<close>

theorem getNextSession_cases_witness:
  "primary_key scenario_db
   \<and> getNextSession [] None = None
   \<and> getNextSession [test_row ''a@x.com'' 1000] (Some ''zzz'') = Some (test_row ''a@x.com'' 1000)
   \<and> getNextSession scenario_db None = Some (test_row ''a@x.com'' 1000)
   \<and> getNextSession scenario_db (Some []) = Some (test_row ''a@x.com'' 1000)
   \<and> getNextSession scenario_db (Some ''z@x.com'') = Some (test_row ''a@x.com'' 1000)
   \<and> getNextSession scenario_db (Some ''b@x.com'') = Some (test_row ''c@x.com'' 3000)
   \<and> getNextSession scenario_db (Some ''c@x.com'') = Some (test_row ''a@x.com'' 1000)"
proof -
  have len: "2 \<le> length scenario_db" "length scenario_db = 3"
    by (simp_all add: scenario_db_def)
  have e: "getNextSession [] None = None"
    using getNextSession_cases [of "[]" None] by (simp add: primary_key_def)
  have s: "getNextSession [test_row ''a@x.com'' 1000] (Some ''zzz'') = Some (test_row ''a@x.com'' 1000)"
    using getNextSession_cases [of "[test_row ''a@x.com'' 1000]" "Some ''zzz''"]
    by (simp add: primary_key_def)
  have n: "getNextSession scenario_db None = Some (test_row ''a@x.com'' 1000)"
    using getNextSession_cases [OF scenario_primary_key, of None] len
    by (simp add: scenario_ordered)
  have m: "getNextSession scenario_db (Some []) = Some (test_row ''a@x.com'' 1000)"
    using getNextSession_cases [OF scenario_primary_key, of "Some []"] len
    by (simp add: scenario_ordered)
  have "\<forall>s \<in> set scenario_db. Some ''z@x.com'' \<noteq> Some (email s)"
    by (simp add: scenario_db_def test_row_def)
  with getNextSession_cases [OF scenario_primary_key, of "Some ''z@x.com''"] len
  have z: "getNextSession scenario_db (Some ''z@x.com'') = Some (test_row ''a@x.com'' 1000)"
    by (simp add: scenario_ordered)
  have "1 < length scenario_db \<and> Some ''b@x.com'' = Some (email (select_ordered scenario_db ! 1))
      \<and> email (select_ordered scenario_db ! 1) \<noteq> []"
    using len by (simp add: scenario_ordered test_row_def)
  with getNextSession_cases [OF scenario_primary_key, of "Some ''b@x.com''"] len
  have b: "getNextSession scenario_db (Some ''b@x.com'') = Some (select_ordered scenario_db ! ((1 + 1) mod length scenario_db))"
    by blast
  have "2 < length scenario_db \<and> Some ''c@x.com'' = Some (email (select_ordered scenario_db ! 2))
      \<and> email (select_ordered scenario_db ! 2) \<noteq> []"
    using len by (simp add: scenario_ordered test_row_def)
  with getNextSession_cases [OF scenario_primary_key, of "Some ''c@x.com''"] len
  have c: "getNextSession scenario_db (Some ''c@x.com'') = Some (select_ordered scenario_db ! ((2 + 1) mod length scenario_db))"
    by blast
  from e s n m z b c len scenario_primary_key show ?thesis
    by (simp add: scenario_ordered)
qed

text \<open>
  C1 as stated fails where a row has the empty email and the current identity is that
  email: it is found at position 0 of the sorted list, so the claim asks for the row at
  position 1, and the program returns the row at position 0.
\<close>

theorem getNextSession_empty_identity_counterexample:
  "primary_key empty_email_db
   \<and> select_ordered empty_email_db = [test_row [] 0, test_row ''b@x.com'' 1]
   \<and> email (test_row [] 0) = []
   \<and> getNextSession empty_email_db (Some []) = Some (test_row [] 0)
   \<and> getNextSession empty_email_db (Some []) \<noteq> Some (test_row ''b@x.com'' 1)"
  by (simp add: primary_key_def empty_email_db_def select_ordered_def getNextSession_def test_row_def)

text \<open>
  C3 (as amended). In a table whose emails are pairwise distinct and none of them empty,
  start from the email of any row and apply the successor map: after as many steps as
  there are rows the start is reached again, not earlier, and the identities met on the
  way are the emails of the table, each one once.
\<close>

theorem rotation_is_cycle:
  assumes "primary_key db" and "\<forall>s \<in> set db. email s \<noteq> []" and "s \<in> set db"
  shows "successors db (length db) (email s) = Some (email s)
       \<and> mset (map (\<lambda>k. successors db k (email s)) [0..<length db]) = mset (map (Some \<circ> email) db)
       \<and> (\<forall>k. 0 < k \<and> k < length db \<longrightarrow> successors db k (email s) \<noteq> Some (email s))"
proof -
  from assms(3) have "s \<in> set (select_ordered db)" by simp
  then obtain i where i: "i < length db" "select_ordered db ! i = s"
    by (metis in_set_conv_nth select_ordered_length)
  have return: "successors db (length db) (email s) = Some (email s)"
    using successors_at [OF assms(1,2) i(1), of "length db"] i by simp
  have "mset (map (\<lambda>k. successors db k (email s)) [0..<length db])
      = mset (map (Some \<circ> email) (rotate i (select_ordered db)))"
    using successors_cycle_list [OF assms(1,2) i(1)] i by simp
  also have "\<dots> = mset (map (Some \<circ> email) db)"
    by (simp add: mset_rotate_eq)
  finally have once: "mset (map (\<lambda>k. successors db k (email s)) [0..<length db]) = mset (map (Some \<circ> email) db)" .
  have early: "successors db k (email s) \<noteq> Some (email s)" if "0 < k" "k < length db" for k
  proof
    assume eq: "successors db k (email s) = Some (email s)"
    have d: "distinct (map email (select_ordered db))"
      using select_ordered_primary_key [OF assms(1)] by (simp add: primary_key_def)
    from successors_at [OF assms(1,2) i(1), of k] i eq
    have "email (select_ordered db ! ((i + k) mod length db)) = email (select_ordered db ! i)"
      by simp
    moreover have "(i + k) mod length db < length db"
      by (rule mod_less_divisor) (use i(1) in linarith)
    ultimately have "(i + k) mod length db = i"
      using d i(1) by (simp add: nth_eq_iff_index_eq [symmetric])
    with mod_shift_neq [OF that i(1)] show False by simp
  qed
  from return once early show ?thesis by blast
qed

text \<open>The theorem in the rotation scenario, from \<open>b@x.com\<close>.\<close>

theorem rotation_is_cycle_witness:
  "primary_key scenario_db
   \<and> test_row ''b@x.com'' 2000 \<in> set scenario_db
   \<and> successors scenario_db 3 ''b@x.com'' = Some ''b@x.com''
   \<and> successors scenario_db 1 ''b@x.com'' \<noteq> Some ''b@x.com''
   \<and> successors scenario_db 2 ''b@x.com'' \<noteq> Some ''b@x.com''"
proof -
  have ne: "\<forall>s \<in> set scenario_db. email s \<noteq> []"
    by (simp add: scenario_db_def test_row_def)
  have mem: "test_row ''b@x.com'' 2000 \<in> set scenario_db"
    by (simp add: scenario_db_def)
  have len: "length scenario_db = 3"
    by (simp add: scenario_db_def)
  have em: "email (test_row ''b@x.com'' 2000) = ''b@x.com''"
    by (simp add: test_row_def)
  from rotation_is_cycle [OF scenario_primary_key ne mem]
  have full: "successors scenario_db 3 ''b@x.com'' = Some ''b@x.com''"
    and early: "\<forall>k. 0 < k \<and> k < 3 \<longrightarrow> successors scenario_db k ''b@x.com'' \<noteq> Some ''b@x.com''"
    unfolding len em by blast+
  from early have "successors scenario_db 1 ''b@x.com'' \<noteq> Some ''b@x.com''"
    by (rule allE [where x = 1]) simp
  moreover from early have "successors scenario_db 2 ''b@x.com'' \<noteq> Some ''b@x.com''"
    by (rule allE [where x = 2]) simp
  ultimately show ?thesis
    using full scenario_primary_key mem by blast
qed

text \<open>
  C3 as stated fails in a table of two rows with distinct emails, one of them empty:
  the successor of the empty email is the empty email, so the walk from that row never
  meets the other row.
\<close>

theorem rotation_empty_identity_counterexample:
  "primary_key empty_email_db
   \<and> length empty_email_db = 2
   \<and> test_row [] 0 \<in> set empty_email_db
   \<and> test_row ''b@x.com'' 1 \<in> set empty_email_db
   \<and> successors empty_email_db 0 (email (test_row [] 0)) = Some []
   \<and> successors empty_email_db 1 (email (test_row [] 0)) = Some []"
  by (simp add: primary_key_def empty_email_db_def select_ordered_def getNextSession_def
      successor_def test_row_def)

subsection \<open>Lookups after each statement\<close>

lemma select_by_email_None_iff: "select_by_email db e = None \<longleftrightarrow> e \<notin> email ` set db"
  by (auto simp: select_by_email_def find_None_iff)

lemma select_by_email_SomeD: "select_by_email db e = Some s \<Longrightarrow> s \<in> set db \<and> email s = e"
  unfolding select_by_email_def by (induction db) (auto split: if_splits)

lemma select_insert_session:
  "select_by_email db e = None \<Longrightarrow>
   select_by_email (insert_session e a g lu ca ua db) e =
     Some \<lparr>email = e, auth_status = a, google_data = g, name = None,
           last_used = lu, created_at = ca, updated_at = ua\<rparr>"
  unfolding select_by_email_def insert_session_def by (induction db) (auto split: if_splits)

lemma select_update_blobs:
  "select_by_email (update_blobs a g now e db) e =
     map_option (\<lambda>s. s\<lparr>auth_status := a, google_data := g, updated_at := now\<rparr>) (select_by_email db e)"
  unfolding select_by_email_def update_blobs_def by (induction db) auto

lemma delete_absent: "e \<notin> email ` set db \<Longrightarrow> delete_by_email e db = db"
  unfolding delete_by_email_def by (induction db) auto

subsection \<open>What getCurrentSession returns, and how it is bound\<close>

lemma bound_text_string [simp]: "bound_text B (JString e) = Some e"
  by (simp add: bound_text_def)

lemma getCurrentSession_SomeD:
  assumes "getCurrentSession P ag = (out, Some cur)"
  shows "out = []"
    and "ag ''antigravityAuthStatus'' = Some (auth_status cur)"
    and "\<exists>authData. P (auth_status cur) = Some authData \<and> email_property authData = Some (email cur)"
    and "truthy (email cur)"
    and "google_data cur \<noteq> []"
    and "google_data cur = (case ag ''google.antigravity'' of None \<Rightarrow> ''{}'' | Some g \<Rightarrow> if g = [] then ''{}'' else g)"
  using assms unfolding getCurrentSession_def Let_def
  by (auto split: option.splits if_splits)

section \<open>The sync engine: claims C2, C8 and C5\<close>

text \<open>
  C2. \<open>syncCurrent\<close> reports "no active session" and changes nothing when
  \<open>getCurrentSession\<close> yields none. When it yields an identity that no row has, a row
  is appended with the blobs read, \<open>last_used\<close> 0 and both other timestamps \<open>now\<close>, and
  "added" is reported. When a row has the identity and one of its blobs is not the
  string read, the row found afterwards is the old one with both blobs replaced and
  \<open>updated_at\<close> set to \<open>now\<close>, and "updated" is reported. When both blobs are the
  strings read, "already up to date" is reported and nothing changes. The identity is
  looked up and stored as \<open>key\<close>, the text of the email read in the column: for a
  string, the string.
\<close>

theorem syncCurrent_cases:
  "(\<forall>out. getCurrentSession P (ag_db w) = (out, None) \<longrightarrow>
      syncCurrent P B now w = Inr (out @ [Log NoActiveSessionFound], w))
 \<and> (\<forall>out cur key. getCurrentSession P (ag_db w) = (out, Some cur)
        \<and> bound_text B (email cur) = Some key
        \<and> key \<notin> email ` set (session_db w) \<longrightarrow>
      syncCurrent P B now w =
        Inr (out @ [Log (AddedNewSession (email cur))],
             w\<lparr>session_db := session_db w @
                  [\<lparr>email = key, auth_status = auth_status cur, google_data = google_data cur,
                    name = None, last_used = 0, created_at = now, updated_at = now\<rparr>]\<rparr>))
 \<and> (\<forall>out cur key existing. getCurrentSession P (ag_db w) = (out, Some cur)
        \<and> bound_text B (email cur) = Some key
        \<and> select_by_email (session_db w) key = Some existing
        \<and> (auth_status existing \<noteq> auth_status cur \<or> google_data existing \<noteq> google_data cur) \<longrightarrow>
      (\<exists>w'. syncCurrent P B now w = Inr (out @ [Log (UpdatedSessionFor (email cur))], w')
         \<and> ag_db w' = ag_db w
         \<and> select_by_email (session_db w') key =
             Some (existing\<lparr>auth_status := auth_status cur, google_data := google_data cur,
                             updated_at := now\<rparr>)))
 \<and> (\<forall>out cur key existing. getCurrentSession P (ag_db w) = (out, Some cur)
        \<and> bound_text B (email cur) = Some key
        \<and> select_by_email (session_db w) key = Some existing
        \<and> auth_status existing = auth_status cur \<and> google_data existing = google_data cur \<longrightarrow>
      syncCurrent P B now w = Inr (out @ [Log (AlreadyUpToDate (email cur))], w))"
proof (intro conjI allI impI)
  fix out
  assume "getCurrentSession P (ag_db w) = (out, None)"
  then show "syncCurrent P B now w = Inr (out @ [Log NoActiveSessionFound], w)"
    by (simp add: syncCurrent_def)
next
  fix out cur key
  assume "getCurrentSession P (ag_db w) = (out, Some cur) \<and> bound_text B (email cur) = Some key
        \<and> key \<notin> email ` set (session_db w)"
  then have "getCurrentSession P (ag_db w) = (out, Some cur)" "bound_text B (email cur) = Some key"
    and "select_by_email (session_db w) key = None"
    by (simp_all add: select_by_email_None_iff)
  then show "syncCurrent P B now w =
        Inr (out @ [Log (AddedNewSession (email cur))],
             w\<lparr>session_db := session_db w @
                  [\<lparr>email = key, auth_status = auth_status cur, google_data = google_data cur,
                    name = None, last_used = 0, created_at = now, updated_at = now\<rparr>]\<rparr>)"
    by (simp add: syncCurrent_def insert_session_def)
next
  fix out cur key existing
  assume a: "getCurrentSession P (ag_db w) = (out, Some cur)
        \<and> bound_text B (email cur) = Some key
        \<and> select_by_email (session_db w) key = Some existing
        \<and> (auth_status existing \<noteq> auth_status cur \<or> google_data existing \<noteq> google_data cur)"
  let ?w' = "w\<lparr>session_db := update_blobs (auth_status cur) (google_data cur) now key (session_db w)\<rparr>"
  from a have "syncCurrent P B now w = Inr (out @ [Log (UpdatedSessionFor (email cur))], ?w')"
    by (auto simp: syncCurrent_def)
  moreover have "ag_db ?w' = ag_db w" by simp
  moreover from a have "select_by_email (session_db ?w') key =
             Some (existing\<lparr>auth_status := auth_status cur, google_data := google_data cur,
                             updated_at := now\<rparr>)"
    by (simp add: select_update_blobs)
  ultimately show "\<exists>w'. syncCurrent P B now w = Inr (out @ [Log (UpdatedSessionFor (email cur))], w')
         \<and> ag_db w' = ag_db w
         \<and> select_by_email (session_db w') key =
             Some (existing\<lparr>auth_status := auth_status cur, google_data := google_data cur,
                             updated_at := now\<rparr>)"
    by blast
next
  fix out cur key existing
  assume "getCurrentSession P (ag_db w) = (out, Some cur)
        \<and> bound_text B (email cur) = Some key
        \<and> select_by_email (session_db w) key = Some existing
        \<and> auth_status existing = auth_status cur \<and> google_data existing = google_data cur"
  then show "syncCurrent P B now w = Inr (out @ [Log (AlreadyUpToDate (email cur))], w)"
    by (simp add: syncCurrent_def)
qed

lemma read_live_u:
  "getCurrentSession example_parse live_u =
     ([], Some \<lparr>email = JString ''u@x.com'', auth_status = u_auth, google_data = ''{}''\<rparr>)"
  by (simp add: getCurrentSession_def example_parse_def live_u_def u_auth_def)

lemma read_live_u_renamed:
  "getCurrentSession example_parse live_u_renamed =
     ([], Some \<lparr>email = JString ''u@x.com'', auth_status = u_auth_renamed, google_data = ''{}''\<rparr>)"
  by (simp add: getCurrentSession_def example_parse_def live_u_renamed_def u_auth_def u_auth_renamed_def)

lemma read_live_true:
  "getCurrentSession example_parse live_true =
     ([], Some \<lparr>email = JBool True, auth_status = true_auth, google_data = ''{}''\<rparr>)"
  by (simp add: getCurrentSession_def example_parse_def live_true_def u_auth_def u_auth_renamed_def
      true_auth_def)

lemma read_empty_store: "getCurrentSession P Map.empty = ([], None)"
  by (simp add: getCurrentSession_def)

lemma u_auth_differs: "u_auth \<noteq> u_auth_renamed"
  by (simp add: u_auth_def u_auth_renamed_def)

lemma bound_true: "bound_text example_bind (JBool True) = Some ''1''"
  by (simp add: bound_text_def example_bind_def)

text \<open>
  The theorem at five worlds: an empty live store; the sync scenario (the blob of
  \<open>u@x.com\<close> live, the repository empty); the same identity live with another name in
  its blob; the live blob already stored; and a live blob whose email is \<open>true\<close>, stored
  under the key \<open>1\<close>.
\<close>

theorem syncCurrent_cases_witness:
  "syncCurrent example_parse example_bind 7 \<lparr>ag_db = Map.empty, session_db = []\<rparr>
     = Inr ([Log NoActiveSessionFound], \<lparr>ag_db = Map.empty, session_db = []\<rparr>)
 \<and> syncCurrent example_parse example_bind 7 \<lparr>ag_db = live_u, session_db = []\<rparr>
     = Inr ([Log (AddedNewSession (JString ''u@x.com''))], \<lparr>ag_db = live_u, session_db = [u_row 7]\<rparr>)
 \<and> (\<exists>w'. syncCurrent example_parse example_bind 7 \<lparr>ag_db = live_u_renamed, session_db = [u_row 5]\<rparr>
           = Inr ([Log (UpdatedSessionFor (JString ''u@x.com''))], w')
        \<and> select_by_email (session_db w') ''u@x.com''
           = Some ((u_row 5)\<lparr>auth_status := u_auth_renamed, google_data := ''{}'', updated_at := 7\<rparr>))
 \<and> syncCurrent example_parse example_bind 7 \<lparr>ag_db = live_u, session_db = [u_row 5]\<rparr>
     = Inr ([Log (AlreadyUpToDate (JString ''u@x.com''))], \<lparr>ag_db = live_u, session_db = [u_row 5]\<rparr>)
 \<and> syncCurrent example_parse example_bind 7 \<lparr>ag_db = live_true, session_db = []\<rparr>
     = Inr ([Log (AddedNewSession (JBool True))], \<lparr>ag_db = live_true, session_db = [true_row 7]\<rparr>)"
proof -
  have sel: "select_by_email [u_row 5] ''u@x.com'' = Some (u_row 5)"
    by (simp add: select_by_email_def u_row_def)
  have none: "syncCurrent example_parse example_bind 7 \<lparr>ag_db = Map.empty, session_db = []\<rparr>
     = Inr ([Log NoActiveSessionFound], \<lparr>ag_db = Map.empty, session_db = []\<rparr>)"
    using syncCurrent_cases [of example_parse "\<lparr>ag_db = Map.empty, session_db = []\<rparr>" example_bind 7]
    by (simp add: read_empty_store)
  have added: "syncCurrent example_parse example_bind 7 \<lparr>ag_db = live_u, session_db = []\<rparr>
     = Inr ([Log (AddedNewSession (JString ''u@x.com''))], \<lparr>ag_db = live_u, session_db = [u_row 7]\<rparr>)"
    using syncCurrent_cases [of example_parse "\<lparr>ag_db = live_u, session_db = []\<rparr>" example_bind 7]
    by (simp add: read_live_u u_row_def)
  have updated: "\<exists>w'. syncCurrent example_parse example_bind 7 \<lparr>ag_db = live_u_renamed, session_db = [u_row 5]\<rparr>
           = Inr ([Log (UpdatedSessionFor (JString ''u@x.com''))], w')
        \<and> select_by_email (session_db w') ''u@x.com''
           = Some ((u_row 5)\<lparr>auth_status := u_auth_renamed, google_data := ''{}'', updated_at := 7\<rparr>)"
    using syncCurrent_cases [of example_parse "\<lparr>ag_db = live_u_renamed, session_db = [u_row 5]\<rparr>" example_bind 7]
      u_auth_differs
    by (simp add: read_live_u_renamed sel) (auto simp: u_row_def)
  have same: "syncCurrent example_parse example_bind 7 \<lparr>ag_db = live_u, session_db = [u_row 5]\<rparr>
     = Inr ([Log (AlreadyUpToDate (JString ''u@x.com''))], \<lparr>ag_db = live_u, session_db = [u_row 5]\<rparr>)"
    using syncCurrent_cases [of example_parse "\<lparr>ag_db = live_u, session_db = [u_row 5]\<rparr>" example_bind 7]
    by (simp add: read_live_u sel) (simp add: u_row_def)
  have true: "syncCurrent example_parse example_bind 7 \<lparr>ag_db = live_true, session_db = []\<rparr>
     = Inr ([Log (AddedNewSession (JBool True))], \<lparr>ag_db = live_true, session_db = [true_row 7]\<rparr>)"
    using syncCurrent_cases [of example_parse "\<lparr>ag_db = live_true, session_db = []\<rparr>" example_bind 7]
    by (simp add: read_live_true bound_true true_row_def)
  from none added updated same true show ?thesis by blast
qed

lemma getCurrentSession_prints_no_log:
  "getCurrentSession P ag = (out, cur) \<Longrightarrow> Log m \<notin> set out"
  unfolding getCurrentSession_def Let_def
  by (auto split: option.splits if_splits)

lemma update_blobs_nth:
  assumes "i < length db"
  shows "update_blobs a g now e db ! i =
    (if email (db ! i) = e then (db ! i)\<lparr>auth_status := a, google_data := g, updated_at := now\<rparr>
     else db ! i)"
  using assms by (simp add: update_blobs_def)

lemma syncCurrent_updated_path:
  assumes "syncCurrent P B now w = Inr (out, w')" and "Log (UpdatedSessionFor v) \<in> set out"
  shows "\<exists>a g e. bound_text B v = Some e \<and> e \<in> email ` set (session_db w) \<and>
           w' = w\<lparr>session_db := update_blobs a g now e (session_db w)\<rparr>"
proof -
  obtain out0 cur where rd: "getCurrentSession P (ag_db w) = (out0, cur)"
    by (cases "getCurrentSession P (ag_db w)")
  note nolog = getCurrentSession_prints_no_log [OF rd]
  show ?thesis
  proof (cases cur)
    case None
    with rd assms nolog show ?thesis
      by (auto simp: syncCurrent_def)
  next
    case (Some c)
    show ?thesis
    proof (cases "bound_text B (email c)")
      case None
      with rd Some assms show ?thesis
        by (simp add: syncCurrent_def)
    next
      case key: (Some key)
      show ?thesis
      proof (cases "select_by_email (session_db w) key")
        case None
        with rd Some key assms nolog show ?thesis
          by (auto simp: syncCurrent_def)
      next
        case (Some existing)
        from select_by_email_SomeD [OF Some] have mem: "key \<in> email ` set (session_db w)"
          by force
        from rd \<open>cur = Some c\<close> key Some assms nolog
        have "v = email c \<and>
              w' = w\<lparr>session_db := update_blobs (auth_status c) (google_data c) now key (session_db w)\<rparr>"
          by (auto simp: syncCurrent_def split: if_splits)
        with mem key show ?thesis by blast
      qed
    qed
  qed
qed

text \<open>
  C8. When \<open>syncCurrent\<close> reports "updated" for an identity, the live store is as
  before and the table has the same rows at the same places, except that the row of
  that identity (the row whose key \<open>e\<close> is the text of the email reported: for a string,
  the string) has new values in \<open>auth_status\<close>, \<open>google_data\<close> and \<open>updated_at\<close>: its
  \<open>email\<close>, \<open>name\<close>, \<open>created_at\<close> and \<open>last_used\<close> are as before, and the row of every
  other identity is unchanged.
\<close>

theorem syncCurrent_update_frame:
  assumes "syncCurrent P B now w = Inr (out, w')" and "Log (UpdatedSessionFor v) \<in> set out"
  shows "\<exists>e. bound_text B v = Some e
       \<and> ag_db w' = ag_db w
       \<and> length (session_db w') = length (session_db w)
       \<and> (\<forall>i < length (session_db w).
            (email (session_db w ! i) \<noteq> e \<longrightarrow> session_db w' ! i = session_db w ! i)
          \<and> (email (session_db w ! i) = e \<longrightarrow>
               session_db w' ! i =
                 (session_db w ! i)\<lparr>auth_status := auth_status (session_db w' ! i),
                                     google_data := google_data (session_db w' ! i),
                                     updated_at := now\<rparr>
             \<and> email (session_db w' ! i) = e
             \<and> name (session_db w' ! i) = name (session_db w ! i)
             \<and> created_at (session_db w' ! i) = created_at (session_db w ! i)
             \<and> last_used (session_db w' ! i) = last_used (session_db w ! i)))"
proof -
  from syncCurrent_updated_path [OF assms] obtain a g e where
    e: "bound_text B v = Some e"
    and w': "w' = w\<lparr>session_db := update_blobs a g now e (session_db w)\<rparr>"
    by blast
  have "ag_db w' = ag_db w"
    by (simp add: w')
  moreover have "length (session_db w') = length (session_db w)"
    by (simp add: w' update_blobs_def)
  moreover have "\<forall>i < length (session_db w).
            (email (session_db w ! i) \<noteq> e \<longrightarrow> session_db w' ! i = session_db w ! i)
          \<and> (email (session_db w ! i) = e \<longrightarrow>
               session_db w' ! i =
                 (session_db w ! i)\<lparr>auth_status := auth_status (session_db w' ! i),
                                     google_data := google_data (session_db w' ! i),
                                     updated_at := now\<rparr>
             \<and> email (session_db w' ! i) = e
             \<and> name (session_db w' ! i) = name (session_db w ! i)
             \<and> created_at (session_db w' ! i) = created_at (session_db w ! i)
             \<and> last_used (session_db w' ! i) = last_used (session_db w ! i))"
    by (simp add: w' update_blobs_nth)
  ultimately show ?thesis using e by blast
qed

text \<open>
  The theorem where the live blob of \<open>u@x.com\<close> has changed and the table holds a
  second row: the row of \<open>u@x.com\<close> keeps \<open>created_at = 5\<close> and \<open>last_used = 0\<close>.
\<close>

theorem syncCurrent_update_frame_witness:
  "syncCurrent example_parse example_bind 7
       \<lparr>ag_db = live_u_renamed, session_db = [test_row ''a@x.com'' 1000, u_row 5]\<rparr>
     = Inr ([Log (UpdatedSessionFor (JString ''u@x.com''))],
            \<lparr>ag_db = live_u_renamed,
               session_db = [test_row ''a@x.com'' 1000,
                             (u_row 5)\<lparr>auth_status := u_auth_renamed, updated_at := 7\<rparr>]\<rparr>)
 \<and> created_at ((u_row 5)\<lparr>auth_status := u_auth_renamed, updated_at := 7\<rparr>) = 5
 \<and> last_used ((u_row 5)\<lparr>auth_status := u_auth_renamed, updated_at := 7\<rparr>) = 0"
proof -
  let ?w = "\<lparr>ag_db = live_u_renamed, session_db = [test_row ''a@x.com'' 1000, u_row 5]\<rparr>"
  let ?w' = "\<lparr>ag_db = live_u_renamed,
               session_db = [test_row ''a@x.com'' 1000,
                             (u_row 5)\<lparr>auth_status := u_auth_renamed, updated_at := 7\<rparr>]\<rparr>"
  have run: "syncCurrent example_parse example_bind 7 ?w
      = Inr ([Log (UpdatedSessionFor (JString ''u@x.com''))], ?w')"
    using u_auth_differs
    by (simp add: syncCurrent_def read_live_u_renamed select_by_email_def update_blobs_def
        test_row_def u_row_def)
  have "Log (UpdatedSessionFor (JString ''u@x.com'')) \<in> set [Log (UpdatedSessionFor (JString ''u@x.com''))]"
    by simp
  from syncCurrent_update_frame [OF run this]
  have "\<forall>i < length (session_db ?w).
          email (session_db ?w ! i) = ''u@x.com'' \<longrightarrow>
            created_at (session_db ?w' ! i) = created_at (session_db ?w ! i)
          \<and> last_used (session_db ?w' ! i) = last_used (session_db ?w ! i)"
    by (simp only: bound_text_string option.inject) blast
  then have "email (session_db ?w ! 1) = ''u@x.com'' \<longrightarrow>
            created_at (session_db ?w' ! 1) = created_at (session_db ?w ! 1)
          \<and> last_used (session_db ?w' ! 1) = last_used (session_db ?w ! 1)"
    by simp
  then have "created_at ((u_row 5)\<lparr>auth_status := u_auth_renamed, updated_at := 7\<rparr>) = 5
     \<and> last_used ((u_row 5)\<lparr>auth_status := u_auth_renamed, updated_at := 7\<rparr>) = 0"
    by (simp add: u_row_def)
  with run show ?thesis by blast
qed

lemma syncCurrent_up_to_date:
  assumes "getCurrentSession P (ag_db w) = (out, Some cur)"
    and "bound_text B (email cur) = Some key"
    and "select_by_email (session_db w) key = Some r"
    and "auth_status r = auth_status cur" and "google_data r = google_data cur"
  shows "syncCurrent P B now w = Inr ([Log (AlreadyUpToDate (email cur))], w)"
  using assms getCurrentSession_SomeD(1) [OF assms(1)] by (simp add: syncCurrent_def)

lemma sync_repeatedly_up_to_date:
  assumes "getCurrentSession P (ag_db w) = (out, Some cur)"
    and "bound_text B (email cur) = Some key"
    and "select_by_email (session_db w) key = Some r"
    and "auth_status r = auth_status cur" and "google_data r = google_data cur"
  shows "sync_repeatedly P B nows w = Inr (replicate (length nows) [Log (AlreadyUpToDate (email cur))], w)"
  by (induction nows) (simp_all add: syncCurrent_up_to_date [OF assms])

lemma syncCurrent_first:
  assumes "getCurrentSession P (ag_db w) = (out, Some cur)"
    and "bound_text B (email cur) = Some key"
  shows "\<exists>out1 w1 r. syncCurrent P B now w = Inr (out1, w1)
           \<and> out1 \<in> {[Log (AddedNewSession (email cur))], [Log (UpdatedSessionFor (email cur))],
                       [Log (AlreadyUpToDate (email cur))]}
           \<and> (out1 = [Log (AddedNewSession (email cur))] \<longleftrightarrow> key \<notin> email ` set (session_db w))
           \<and> ag_db w1 = ag_db w
           \<and> select_by_email (session_db w1) key = Some r
           \<and> auth_status r = auth_status cur \<and> google_data r = google_data cur"
proof (cases "select_by_email (session_db w) key")
  case None
  let ?w1 = "w\<lparr>session_db := insert_session key (auth_status cur) (google_data cur) 0 now now (session_db w)\<rparr>"
  from None assms getCurrentSession_SomeD(1) [OF assms(1)]
  have "syncCurrent P B now w = Inr ([Log (AddedNewSession (email cur))], ?w1)"
    by (simp add: syncCurrent_def)
  with None select_insert_session [OF None, of "auth_status cur" "google_data cur" 0 now now]
  show ?thesis
    by (simp add: select_by_email_None_iff)
next
  case (Some existing)
  then have present: "key \<in> email ` set (session_db w)"
    using select_by_email_None_iff [of "session_db w" key] by simp
  show ?thesis
  proof (cases "auth_status existing \<noteq> auth_status cur \<or> google_data existing \<noteq> google_data cur")
    case True
    let ?w1 = "w\<lparr>session_db := update_blobs (auth_status cur) (google_data cur) now key (session_db w)\<rparr>"
    from True Some assms getCurrentSession_SomeD(1) [OF assms(1)]
    have "syncCurrent P B now w = Inr ([Log (UpdatedSessionFor (email cur))], ?w1)"
      by (auto simp: syncCurrent_def)
    with Some present show ?thesis
      by (simp add: select_update_blobs)
  next
    case False
    with Some have "syncCurrent P B now w = Inr ([Log (AlreadyUpToDate (email cur))], w)"
      using syncCurrent_up_to_date [OF assms Some] by simp
    with Some False present show ?thesis by simp
  qed
qed

text \<open>
  C5. With an identity readable in the live store (and bound as the key \<open>key\<close>: for a
  string, the string) and nothing but \<open>syncCurrent\<close> running, every call returns; the
  first reports "added", "updated" or "already up to date" ("added" exactly when no row
  had the identity); every later call reports "already up to date", and the two
  databases stay as the first call left them.
\<close>

theorem sync_repeatedly_idempotent:
  assumes "getCurrentSession P (ag_db w) = (out, Some cur)"
    and "bound_text B (email cur) = Some key"
  shows "\<exists>out1 w1 outs.
           syncCurrent P B now w = Inr (out1, w1)
         \<and> sync_repeatedly P B (now # nows) w = Inr (out1 # outs, w1)
         \<and> length outs = length nows
         \<and> (\<forall>later \<in> set outs. later = [Log (AlreadyUpToDate (email cur))])
         \<and> out1 \<in> {[Log (AddedNewSession (email cur))], [Log (UpdatedSessionFor (email cur))],
                     [Log (AlreadyUpToDate (email cur))]}
         \<and> (out1 = [Log (AddedNewSession (email cur))] \<longleftrightarrow> key \<notin> email ` set (session_db w))"
proof -
  from syncCurrent_first [OF assms, of now] obtain out1 w1 r where
    first: "syncCurrent P B now w = Inr (out1, w1)"
    and out1: "out1 \<in> {[Log (AddedNewSession (email cur))], [Log (UpdatedSessionFor (email cur))],
                       [Log (AlreadyUpToDate (email cur))]}"
    and added: "out1 = [Log (AddedNewSession (email cur))] \<longleftrightarrow> key \<notin> email ` set (session_db w)"
    and ag: "ag_db w1 = ag_db w"
    and r: "select_by_email (session_db w1) key = Some r"
      "auth_status r = auth_status cur" "google_data r = google_data cur"
    by blast
  from assms(1) ag have "getCurrentSession P (ag_db w1) = (out, Some cur)"
    by simp
  from sync_repeatedly_up_to_date [OF this assms(2) r, of nows]
  have rest: "sync_repeatedly P B nows w1 = Inr (replicate (length nows) [Log (AlreadyUpToDate (email cur))], w1)" .
  with first have "sync_repeatedly P B (now # nows) w
      = Inr (out1 # replicate (length nows) [Log (AlreadyUpToDate (email cur))], w1)"
    by simp
  with first out1 added show ?thesis
    by (intro exI [of _ out1] exI [of _ w1] exI [of _ "replicate (length nows) [Log (AlreadyUpToDate (email cur))]"]) simp
qed

text \<open>The sync scenario, three calls in a row.\<close>

theorem sync_repeatedly_idempotent_witness:
  "getCurrentSession example_parse (ag_db \<lparr>ag_db = live_u, session_db = []\<rparr>)
     = ([], Some \<lparr>email = JString ''u@x.com'', auth_status = u_auth, google_data = ''{}''\<rparr>)
 \<and> sync_repeatedly example_parse example_bind [7, 8, 9] \<lparr>ag_db = live_u, session_db = []\<rparr>
     = Inr ([[Log (AddedNewSession (JString ''u@x.com''))], [Log (AlreadyUpToDate (JString ''u@x.com''))],
             [Log (AlreadyUpToDate (JString ''u@x.com''))]],
            \<lparr>ag_db = live_u, session_db = [u_row 7]\<rparr>)"
proof -
  let ?w = "\<lparr>ag_db = live_u, session_db = []\<rparr>"
  let ?cur = "\<lparr>email = JString ''u@x.com'', auth_status = u_auth, google_data = ''{}''\<rparr>"
  have rd: "getCurrentSession example_parse (ag_db ?w) = ([], Some ?cur)"
    by (simp add: read_live_u)
  have key: "bound_text example_bind (email ?cur) = Some ''u@x.com''"
    by simp
  have first: "syncCurrent example_parse example_bind 7 ?w
     = Inr ([Log (AddedNewSession (JString ''u@x.com''))], \<lparr>ag_db = live_u, session_db = [u_row 7]\<rparr>)"
    by (simp add: syncCurrent_def read_live_u select_by_email_def insert_session_def u_row_def)
  from sync_repeatedly_idempotent [OF rd key, of 7 "[8, 9]"]
  obtain out1 w1 outs where
    one: "syncCurrent example_parse example_bind 7 ?w = Inr (out1, w1)"
    and rep: "sync_repeatedly example_parse example_bind [7, 8, 9] ?w = Inr (out1 # outs, w1)"
    and len: "length outs = length [8, 9 :: int]"
    and all: "\<forall>later \<in> set outs. later = [Log (AlreadyUpToDate (email ?cur))]"
    by blast
  from one first have o1: "out1 = [Log (AddedNewSession (JString ''u@x.com''))]"
    and w1: "w1 = \<lparr>ag_db = live_u, session_db = [u_row 7]\<rparr>"
    by simp_all
  from len obtain x y where xy: "outs = [x, y]"
    by (cases outs; cases "tl outs") auto
  with all have "x = [Log (AlreadyUpToDate (JString ''u@x.com''))]" "y = [Log (AlreadyUpToDate (JString ''u@x.com''))]"
    by simp_all
  with xy have "outs = [[Log (AlreadyUpToDate (JString ''u@x.com''))], [Log (AlreadyUpToDate (JString ''u@x.com''))]]"
    by simp
  with rep o1 w1 have "sync_repeatedly example_parse example_bind [7, 8, 9] ?w
     = Inr ([[Log (AddedNewSession (JString ''u@x.com''))], [Log (AlreadyUpToDate (JString ''u@x.com''))],
             [Log (AlreadyUpToDate (JString ''u@x.com''))]],
            \<lparr>ag_db = live_u, session_db = [u_row 7]\<rparr>)"
    by (simp only:)
  with rd show ?thesis by (rule conjI)
qed

section \<open>The session loader and the command line: claims C7, C4 and C6\<close>

text \<open>
  C7. When no row has the identity, \<open>loadSession\<close> prints "session not found" on
  standard error and returns; the live store and the table are what they were.
\<close>

theorem loadSession_not_found:
  assumes "e \<notin> email ` set (session_db w)"
  shows "loadSession now e w = ([Error (SessionNotFound e)], w)"
  using assms by (simp add: loadSession_def select_by_email_None_iff [symmetric])

theorem loadSession_not_found_witness:
  "''z@x.com'' \<notin> email ` set (session_db \<lparr>ag_db = live_u, session_db = scenario_db\<rparr>)
 \<and> loadSession 7 ''z@x.com'' \<lparr>ag_db = live_u, session_db = scenario_db\<rparr>
     = ([Error (SessionNotFound ''z@x.com'')], \<lparr>ag_db = live_u, session_db = scenario_db\<rparr>)"
proof -
  have absent: "''z@x.com'' \<notin> email ` set (session_db \<lparr>ag_db = live_u, session_db = scenario_db\<rparr>)"
    by (simp add: scenario_db_def test_row_def)
  from loadSession_not_found [OF absent, of 7] absent show ?thesis
    by (rule_tac conjI)
qed

lemma loadSession_found:
  assumes "select_by_email (session_db w) e = Some s"
  shows "loadSession now e w =
    ([Log (LoadedSession e), Log PleaseReloadWindow],
     w\<lparr>ag_db := ((ag_db w)(''antigravityAuthStatus'' \<mapsto> auth_status s))
                    (''google.antigravity'' \<mapsto> google_data s),
       session_db := update_last_used now e (session_db w)\<rparr>)"
  using assms by (simp add: loadSession_def)

lemma getCurrentSession_after_write:
  assumes "blob_names_key P s" and "email s \<noteq> []"
  shows "getCurrentSession P ((ag(''antigravityAuthStatus'' \<mapsto> auth_status s))(''google.antigravity'' \<mapsto> google_data s))
       = ([], Some \<lparr>email = JString (email s), auth_status = auth_status s,
                     google_data = (if google_data s = [] then ''{}'' else google_data s)\<rparr>)"
  using assms unfolding blob_names_key_def getCurrentSession_def Let_def
  by (auto split: option.splits)

text \<open>
  C4 (as amended). Let a row be found for the identity, let its auth blob name its key,
  and let neither the key nor its secondary blob be empty. Then \<open>loadSession\<close> followed
  by \<open>getCurrentSession\<close> yields that identity, as a string, and the two blobs of the
  row.
\<close>

theorem load_then_read:
  assumes "select_by_email (session_db w) e = Some s"
    and "blob_names_key P s" and "email s \<noteq> []" and "google_data s \<noteq> []"
  shows "getCurrentSession P (ag_db (snd (loadSession now e w)))
       = ([], Some \<lparr>email = JString e, auth_status = auth_status s, google_data = google_data s\<rparr>)"
proof -
  from select_by_email_SomeD [OF assms(1)] have "email s = e" by simp
  with getCurrentSession_after_write [OF assms(2,3), of "ag_db w"] assms(4) show ?thesis
    by (simp add: loadSession_found [OF assms(1)])
qed

lemma u_row_names_key: "blob_names_key example_parse (u_row t)"
  by (simp add: blob_names_key_def example_parse_def u_row_def)

text \<open>The theorem for the row that the sync scenario stored, loaded into an empty live store.\<close>

theorem load_then_read_witness:
  "select_by_email (session_db \<lparr>ag_db = Map.empty, session_db = [u_row 5]\<rparr>) ''u@x.com'' = Some (u_row 5)
 \<and> blob_names_key example_parse (u_row 5) \<and> email (u_row 5) \<noteq> [] \<and> google_data (u_row 5) \<noteq> []
 \<and> getCurrentSession example_parse
       (ag_db (snd (loadSession 7 ''u@x.com'' \<lparr>ag_db = Map.empty, session_db = [u_row 5]\<rparr>)))
     = ([], Some \<lparr>email = JString ''u@x.com'', auth_status = u_auth, google_data = ''{}''\<rparr>)"
proof -
  have sel: "select_by_email (session_db \<lparr>ag_db = Map.empty, session_db = [u_row 5]\<rparr>) ''u@x.com'' = Some (u_row 5)"
    by (simp add: select_by_email_def u_row_def)
  have ne: "email (u_row 5) \<noteq> []" "google_data (u_row 5) \<noteq> []"
    by (simp_all add: u_row_def)
  from load_then_read [OF sel u_row_names_key ne, of 7]
  have "getCurrentSession example_parse
       (ag_db (snd (loadSession 7 ''u@x.com'' \<lparr>ag_db = Map.empty, session_db = [u_row 5]\<rparr>)))
     = ([], Some \<lparr>email = JString ''u@x.com'', auth_status = u_auth, google_data = ''{}''\<rparr>)"
    by (simp add: u_row_def)
  with sel u_row_names_key ne show ?thesis by blast
qed

text \<open>
  C4 as stated fails for a row as the test suite inserts it, whose auth blob is \<open>{}\<close>:
  the row is stored and loaded, and \<open>getCurrentSession\<close> then returns null, the blob
  having no \<open>email\<close>.
\<close>

theorem load_then_read_counterexample:
  "select_by_email (session_db \<lparr>ag_db = live_u, session_db = [test_row ''a@x.com'' 1000]\<rparr>) ''a@x.com''
     = Some (test_row ''a@x.com'' 1000)
 \<and> fst (loadSession 7 ''a@x.com'' \<lparr>ag_db = live_u, session_db = [test_row ''a@x.com'' 1000]\<rparr>)
     = [Log (LoadedSession ''a@x.com''), Log PleaseReloadWindow]
 \<and> getCurrentSession example_parse
       (ag_db (snd (loadSession 7 ''a@x.com'' \<lparr>ag_db = live_u, session_db = [test_row ''a@x.com'' 1000]\<rparr>)))
     = ([], None)"
  by (simp add: select_by_email_def loadSession_def getCurrentSession_def example_parse_def
      test_row_def u_auth_def u_auth_renamed_def true_auth_def)

text \<open>
  C6 (as amended). For an identity that is not empty and that no row has, the command
  \<open>load\<close> prints "session not found" on standard error, the command \<open>delete\<close> prints its
  confirmation on standard output, both leave the two databases as they were, and both
  end with exit status 0.
\<close>

theorem main_load_delete_absent:
  assumes "e \<notin> email ` set (session_db w)" and "e \<noteq> []"
  shows "main P B now1 now2 (Some ''load'') (Some e) w = Inr (0, [Error (SessionNotFound e)], w)
       \<and> main P B now1 now2 (Some ''delete'') (Some e) w = Inr (0, [Log (DeletedSession e)], w)"
  using assms
  by (simp add: main_def loadByEmail_def deleteSession_def loadSession_def select_by_email_None_iff [symmetric] delete_absent)

text \<open>The theorem in the rotation scenario, for an identity that is not stored.\<close>

theorem main_load_delete_absent_witness:
  "''z@x.com'' \<notin> email ` set (session_db \<lparr>ag_db = live_u, session_db = scenario_db\<rparr>)
 \<and> ''z@x.com'' \<noteq> []
 \<and> main example_parse example_bind 7 8 (Some ''load'') (Some ''z@x.com'') \<lparr>ag_db = live_u, session_db = scenario_db\<rparr>
     = Inr (0, [Error (SessionNotFound ''z@x.com'')], \<lparr>ag_db = live_u, session_db = scenario_db\<rparr>)
 \<and> main example_parse example_bind 7 8 (Some ''delete'') (Some ''z@x.com'') \<lparr>ag_db = live_u, session_db = scenario_db\<rparr>
     = Inr (0, [Log (DeletedSession ''z@x.com'')], \<lparr>ag_db = live_u, session_db = scenario_db\<rparr>)"
proof -
  have absent: "''z@x.com'' \<notin> email ` set (session_db \<lparr>ag_db = live_u, session_db = scenario_db\<rparr>)"
    by (simp add: scenario_db_def test_row_def)
  have given: "''z@x.com'' \<noteq> []"
    by simp
  from main_load_delete_absent [OF absent given, of example_parse example_bind 7 8] absent given
  show ?thesis by blast
qed

text \<open>
  C6 as stated fails on the empty repository: \<open>load\<close> of an identity that is not stored
  ends with exit status 0, and so does \<open>delete\<close>, which prints no error at all.
\<close>

theorem main_exit_status_counterexample:
  "main example_parse example_bind 7 8 (Some ''load'') (Some ''nobody@x.com'') \<lparr>ag_db = live_u, session_db = []\<rparr>
     = Inr (0, [Error (SessionNotFound ''nobody@x.com'')], \<lparr>ag_db = live_u, session_db = []\<rparr>)
 \<and> main example_parse example_bind 7 8 (Some ''delete'') (Some ''nobody@x.com'') \<lparr>ag_db = live_u, session_db = []\<rparr>
     = Inr (0, [Log (DeletedSession ''nobody@x.com'')], \<lparr>ag_db = live_u, session_db = []\<rparr>)"
  by (simp add: main_def loadByEmail_def loadSession_def deleteSession_def select_by_email_def
      delete_by_email_def)

section \<open>Where the rows of a later table come from\<close>

lemma blob_names_key_last_used [simp]:
  "blob_names_key P (r\<lparr>last_used := t\<rparr>) = blob_names_key P r"
  by (simp add: blob_names_key_def cong: option.case_cong)

lemma update_blobs_emails [simp]: "map email (update_blobs a g now e db) = map email db"
  by (simp add: update_blobs_def comp_def if_distrib)

lemma update_last_used_emails [simp]: "map email (update_last_used now e db) = map email db"
  by (simp add: update_last_used_def comp_def if_distrib)

lemma primary_key_insert:
  "primary_key db \<Longrightarrow> select_by_email db e = None \<Longrightarrow> primary_key (insert_session e a g lu ca ua db)"
  by (auto simp: primary_key_def insert_session_def select_by_email_None_iff)

lemma primary_key_update_blobs:
  "primary_key db \<Longrightarrow> primary_key (update_blobs a g now e db)"
  by (simp add: primary_key_def)

lemma primary_key_update_last_used:
  "primary_key db \<Longrightarrow> primary_key (update_last_used now e db)"
  by (simp add: primary_key_def)

lemma primary_key_delete: "primary_key db \<Longrightarrow> primary_key (delete_by_email e db)"
  by (simp add: primary_key_def delete_by_email_def distinct_map_filter)

lemma update_last_used_rows:
  "r' \<in> set (update_last_used now e db) \<Longrightarrow> \<exists>r \<in> set db. r' = r\<lparr>last_used := last_used r'\<rparr>"
proof -
  assume "r' \<in> set (update_last_used now e db)"
  then obtain r where r: "r \<in> set db" "r' = (if email r = e then r\<lparr>last_used := now\<rparr> else r)"
    by (auto simp: update_last_used_def)
  then have "r' = r\<lparr>last_used := last_used r'\<rparr>"
    by (simp split: if_splits)
  with r(1) show ?thesis by blast
qed

lemma update_blobs_rows:
  "r' \<in> set (update_blobs a g now e db) \<Longrightarrow>
   r' \<in> set db \<or> (email r' = e \<and> auth_status r' = a \<and> google_data r' = g \<and> updated_at r' = now)"
  by (auto simp: update_blobs_def)

lemma insert_session_rows:
  "r' \<in> set (insert_session e a g lu ca ua db) \<Longrightarrow>
   r' \<in> set db \<or> (email r' = e \<and> auth_status r' = a \<and> google_data r' = g \<and> updated_at r' = ua)"
  by (auto simp: insert_session_def)

lemma blob_binds_key_cong:
  "email r = email r' \<Longrightarrow> auth_status r = auth_status r' \<Longrightarrow>
   blob_binds_key P B r = blob_binds_key P B r'"
  by (simp add: blob_binds_key_def cong: option.case_cong)

lemma blob_names_key_cong:
  "email r = email r' \<Longrightarrow> auth_status r = auth_status r' \<Longrightarrow>
   blob_names_key P r = blob_names_key P r'"
  by (simp add: blob_names_key_def cong: option.case_cong)

lemma blob_binds_key_last_used [simp]:
  "blob_binds_key P B (r\<lparr>last_used := t\<rparr>) = blob_binds_key P B r"
  by (rule blob_binds_key_cong) simp_all

lemma binds_string_names_key:
  assumes "blob_binds_key P B r" and "blob_email_is_string P r"
  shows "blob_names_key P r" and "email r \<noteq> []"
  using assms unfolding blob_binds_key_def blob_email_is_string_def blob_names_key_def
  by (auto split: option.splits js_value.splits)

text \<open>
  After \<open>syncCurrent\<close> a row is either a row of the table before, or it carries what
  \<open>syncCurrent\<close> writes: a key to which the email of its auth blob binds, a secondary
  blob that is not empty, and the clock reading in \<open>updated_at\<close>. When \<open>syncCurrent\<close>
  ends in an exception there is no world after it, and the table is as it was.
\<close>

lemma syncCurrent_world:
  assumes "syncCurrent P B now w = Inr (out, w')"
  shows "ag_db w' = ag_db w"
    and "primary_key (session_db w) \<Longrightarrow> primary_key (session_db w')"
    and "r' \<in> set (session_db w') \<Longrightarrow>
           r' \<in> set (session_db w)
         \<or> (blob_binds_key P B r' \<and> google_data r' \<noteq> [] \<and> updated_at r' = now)"
proof -
  obtain out0 cur where rd: "getCurrentSession P (ag_db w) = (out0, cur)"
    by (cases "getCurrentSession P (ag_db w)")
  show "ag_db w' = ag_db w"
    using assms rd unfolding syncCurrent_def
    by (auto split: option.splits if_splits)
  show "primary_key (session_db w')" if "primary_key (session_db w)"
    using assms rd that unfolding syncCurrent_def
    by (auto split: option.splits if_splits
        simp: primary_key_insert primary_key_update_blobs)
  show "r' \<in> set (session_db w)
         \<or> (blob_binds_key P B r' \<and> google_data r' \<noteq> [] \<and> updated_at r' = now)"
    if mem: "r' \<in> set (session_db w')"
  proof (cases cur)
    case None
    with rd assms mem show ?thesis by (simp add: syncCurrent_def)
  next
    case (Some c)
    from assms rd Some obtain key where key: "bound_text B (email c) = Some key"
      by (auto simp: syncCurrent_def split: option.splits)
    from getCurrentSession_SomeD [OF rd [unfolded Some]]
    have c: "\<exists>authData. P (auth_status c) = Some authData \<and> email_property authData = Some (email c)"
      "truthy (email c)" "google_data c \<noteq> []"
      by blast+
    have fresh: "blob_binds_key P B r' \<and> google_data r' \<noteq> [] \<and> updated_at r' = now"
      if "email r' = key \<and> auth_status r' = auth_status c \<and> google_data r' = google_data c \<and> updated_at r' = now"
      using that c key by (auto simp: blob_binds_key_def)
    from rd Some key assms consider "w' = w"
      | "w' = w\<lparr>session_db := update_blobs (auth_status c) (google_data c) now key (session_db w)\<rparr>"
      | "w' = w\<lparr>session_db := insert_session key (auth_status c) (google_data c) 0 now now (session_db w)\<rparr>"
      unfolding syncCurrent_def by (auto split: option.splits if_splits)
    then show ?thesis
    proof cases
      case 1
      with mem show ?thesis by simp
    next
      case 2
      with mem update_blobs_rows [of r' "auth_status c" "google_data c" now key "session_db w"] fresh
      show ?thesis by auto
    next
      case 3
      with mem insert_session_rows [of r' key "auth_status c" "google_data c" 0 now now "session_db w"] fresh
      show ?thesis by auto
    qed
  qed
qed

lemma loadSession_world:
  shows "primary_key (session_db w) \<Longrightarrow> primary_key (session_db (snd (loadSession now e w)))"
    and "r' \<in> set (session_db (snd (loadSession now e w))) \<Longrightarrow>
           \<exists>r \<in> set (session_db w). r' = r\<lparr>last_used := last_used r'\<rparr>"
proof -
  show "primary_key (session_db (snd (loadSession now e w)))" if "primary_key (session_db w)"
    using that by (simp add: loadSession_def primary_key_update_last_used split: option.splits)
  show "\<exists>r \<in> set (session_db w). r' = r\<lparr>last_used := last_used r'\<rparr>"
    if "r' \<in> set (session_db (snd (loadSession now e w)))"
  proof (cases "select_by_email (session_db w) e")
    case None
    with that have "r' \<in> set (session_db w)" by (simp add: loadSession_def)
    then show ?thesis by (intro bexI [of _ r']) simp_all
  next
    case (Some s)
    with that show ?thesis
      by (simp add: loadSession_def update_last_used_rows)
  qed
qed


lemma next_world:
  assumes "next P B now1 now2 w = Inr (out, w')"
  shows "primary_key (session_db w) \<Longrightarrow> primary_key (session_db w')"
    and "r' \<in> set (session_db w') \<Longrightarrow>
           (\<exists>r \<in> set (session_db w). r' = r\<lparr>last_used := last_used r'\<rparr>)
         \<or> (blob_binds_key P B r' \<and> google_data r' \<noteq> [] \<and> updated_at r' = now1)"
proof -
  from assms obtain out1 w1 where sync: "syncCurrent P B now1 w = Inr (out1, w1)"
    unfolding next_def by (auto split: sum.splits)
  from assms sync have "w' = w1 \<or> (\<exists>e. w' = snd (loadSession now2 e w1))"
    unfolding next_def
    by (auto split: sum.splits option.splits if_splits prod.splits) (metis snd_conv)+
  then consider "w' = w1" | e where "w' = snd (loadSession now2 e w1)"
    by blast
  note cases = this
  show "primary_key (session_db w')" if "primary_key (session_db w)"
    using cases syncCurrent_world(2) [OF sync that] loadSession_world(1) by cases auto
  show "(\<exists>r \<in> set (session_db w). r' = r\<lparr>last_used := last_used r'\<rparr>)
         \<or> (blob_binds_key P B r' \<and> google_data r' \<noteq> [] \<and> updated_at r' = now1)"
    if mem: "r' \<in> set (session_db w')"
  proof -
    from cases mem obtain r1 where r1: "r1 \<in> set (session_db w1)" "r' = r1\<lparr>last_used := last_used r'\<rparr>"
    proof cases
      case 1
      with mem that [of r'] show ?thesis by simp
    next
      case (2 e)
      with mem loadSession_world(2) [of r' now2 e w1] that show ?thesis by blast
    qed
    from syncCurrent_world(3) [OF sync r1(1)] show ?thesis
    proof
      assume "r1 \<in> set (session_db w)"
      with r1(2) show ?thesis by blast
    next
      assume "blob_binds_key P B r1 \<and> google_data r1 \<noteq> [] \<and> updated_at r1 = now1"
      moreover have "blob_binds_key P B r' = blob_binds_key P B r1"
        "google_data r' = google_data r1" "updated_at r' = updated_at r1"
        by (subst r1(2), simp)+
      ultimately show ?thesis by simp
    qed
  qed
qed

lemma step_world:
  shows "primary_key (session_db w) \<Longrightarrow> primary_key (session_db (step P B c w))"
    and "r' \<in> set (session_db (step P B c w)) \<Longrightarrow>
           (\<exists>r \<in> set (session_db w). r' = r\<lparr>last_used := last_used r'\<rparr>)
         \<or> (blob_binds_key P B r' \<and> google_data r' \<noteq> []
              \<and> updated_at r' \<in> set (readings c))"
proof -
  have same: "\<exists>r \<in> set db. r' = r\<lparr>last_used := last_used r'\<rparr>" if "r' \<in> set db" for db
    using that by (intro bexI [of _ r']) simp_all
  show "primary_key (session_db (step P B c w))" if pk: "primary_key (session_db w)"
  proof (cases c)
    case (Sync now)
    show ?thesis
    proof (cases "syncCurrent P B now w")
      case (Inl f)
      with Sync pk show ?thesis by simp
    next
      case (Inr res)
      then obtain out w' where "syncCurrent P B now w = Inr (out, w')" by (cases res) simp
      with syncCurrent_world(2) [OF this pk] Sync show ?thesis by simp
    qed
  next
    case (Load e now)
    with loadSession_world(1) [OF pk, of now e] show ?thesis
      by (simp add: loadByEmail_def)
  next
    case (Next now1 now2)
    show ?thesis
    proof (cases "next P B now1 now2 w")
      case (Inl f)
      with Next pk show ?thesis by simp
    next
      case (Inr res)
      then obtain out w' where "next P B now1 now2 w = Inr (out, w')" by (cases res) simp
      with next_world(1) [OF this pk] Next show ?thesis by simp
    qed
  next
    case (Delete e)
    with pk show ?thesis
      by (simp add: deleteSession_def primary_key_delete)
  next
    case (IdeWrites ag)
    with pk show ?thesis by simp
  qed
  show "(\<exists>r \<in> set (session_db w). r' = r\<lparr>last_used := last_used r'\<rparr>)
         \<or> (blob_binds_key P B r' \<and> google_data r' \<noteq> []
              \<and> updated_at r' \<in> set (readings c))"
    if mem: "r' \<in> set (session_db (step P B c w))"
  proof (cases c)
    case (Sync now)
    show ?thesis
    proof (cases "syncCurrent P B now w")
      case (Inl f)
      with Sync mem have "r' \<in> set (session_db w)" by simp
      with same show ?thesis by blast
    next
      case (Inr res)
      then obtain out w' where s: "syncCurrent P B now w = Inr (out, w')" by (cases res) simp
      with Sync mem have "r' \<in> set (session_db w')" by simp
      from syncCurrent_world(3) [OF s this] Sync same [of "session_db w"] show ?thesis
        by auto
    qed
  next
    case (Load e now)
    with mem have "r' \<in> set (session_db (snd (loadSession now e w)))"
      by (simp add: loadByEmail_def)
    with loadSession_world(2) [of r' now e w] show ?thesis by blast
  next
    case (Next now1 now2)
    show ?thesis
    proof (cases "next P B now1 now2 w")
      case (Inl f)
      with Next mem have "r' \<in> set (session_db w)" by simp
      with same show ?thesis by blast
    next
      case (Inr res)
      then obtain out w' where s: "next P B now1 now2 w = Inr (out, w')" by (cases res) simp
      with Next mem have "r' \<in> set (session_db w')" by simp
      from next_world(2) [OF s this] Next show ?thesis
        by auto
    qed
  next
    case (Delete e)
    with mem have "r' \<in> set (session_db w)"
      by (auto simp: deleteSession_def delete_by_email_def)
    with same show ?thesis by blast
  next
    case (IdeWrites ag)
    with mem have "r' \<in> set (session_db w)" by simp
    with same show ?thesis by blast
  qed
qed

lemma run_append: "run P B (cs1 @ cs2) w = run P B cs2 (run P B cs1 w)"
  by (induction cs1 arbitrary: w) simp_all

lemma run_primary_key:
  "primary_key (session_db w) \<Longrightarrow> primary_key (session_db (run P B cs w))"
  by (induction cs arbitrary: w) (simp_all add: step_world(1))

lemma run_world:
  "r' \<in> set (session_db (run P B cs w)) \<Longrightarrow>
     (\<exists>r \<in> set (session_db w). r' = r\<lparr>last_used := last_used r'\<rparr>)
   \<or> (blob_binds_key P B r' \<and> google_data r' \<noteq> []
        \<and> updated_at r' \<in> set (all_readings cs))"
proof (induction cs arbitrary: w)
  case Nil
  then have "r' \<in> set (session_db w)" by simp
  then have "\<exists>r \<in> set (session_db w). r' = r\<lparr>last_used := last_used r'\<rparr>"
    by (intro bexI [of _ r']) simp_all
  then show ?case ..
next
  case (Cons c cs)
  from Cons.prems have "r' \<in> set (session_db (run P B cs (step P B c w)))"
    by simp
  from Cons.IH [OF this] show ?case
  proof
    assume "\<exists>r \<in> set (session_db (step P B c w)). r' = r\<lparr>last_used := last_used r'\<rparr>"
    then obtain r1 where r1: "r1 \<in> set (session_db (step P B c w))" "r' = r1\<lparr>last_used := last_used r'\<rparr>"
      by blast
    have eqs: "blob_binds_key P B r' = blob_binds_key P B r1"
      "google_data r' = google_data r1" "updated_at r' = updated_at r1"
      by (subst r1(2), simp)+
    from step_world(2) [OF r1(1)] show ?thesis
    proof
      assume "\<exists>r \<in> set (session_db w). r1 = r\<lparr>last_used := last_used r1\<rparr>"
      then obtain r where r: "r \<in> set (session_db w)" "r1 = r\<lparr>last_used := last_used r1\<rparr>"
        by blast
      have "r' = r\<lparr>last_used := last_used r'\<rparr>"
        by (subst r1(2), subst r(2)) simp
      with r(1) show ?thesis by blast
    next
      assume "blob_binds_key P B r1 \<and> google_data r1 \<noteq> []
              \<and> updated_at r1 \<in> set (readings c)"
      with eqs show ?thesis by (simp add: all_readings_def)
    qed
  next
    assume "blob_binds_key P B r' \<and> google_data r' \<noteq> []
        \<and> updated_at r' \<in> set (all_readings cs)"
    then show ?thesis by (simp add: all_readings_def)
  qed
qed

lemma all_readings_append: "all_readings (cs1 @ cs2) = all_readings cs1 @ all_readings cs2"
  by (simp add: all_readings_def)

lemma primary_key_same_email:
  assumes "primary_key db" and "r \<in> set db" and "r' \<in> set db" and "email r = email r'"
  shows "r = r'"
  using assms unfolding primary_key_def by (meson distinct_map inj_onD)

section \<open>The timestamps and the blobs over a run: claims C9 and C10\<close>

text \<open>
  C9 (as amended). Take a run of commands (sync, load, next, delete, and the IDE writing
  its store in between) in which the clock readings never decrease and none is earlier
  than an \<open>updated_at\<close> already stored, and stop it at any point. A row present at that
  point and a row of the same identity present at the end, be it the same row or one
  created again after a deletion, satisfy: the later \<open>updated_at\<close> is not smaller.
\<close>

theorem updated_at_only_advances:
  assumes "primary_key (session_db w)"
    and "sorted (all_readings (cs1 @ cs2))"
    and "\<forall>r \<in> set (session_db w). \<forall>t \<in> set (all_readings (cs1 @ cs2)). updated_at r \<le> t"
    and "r1 \<in> set (session_db (run P B cs1 w))"
    and "r2 \<in> set (session_db (run P B (cs1 @ cs2) w))"
    and "email r2 = email r1"
  shows "updated_at r1 \<le> updated_at r2"
proof -
  let ?w1 = "run P B cs1 w"
  have pk1: "primary_key (session_db ?w1)"
    using run_primary_key [OF assms(1)] .
  from assms(5) have "r2 \<in> set (session_db (run P B cs2 ?w1))"
    by (simp add: run_append)
  from run_world [OF this] show ?thesis
  proof
    assume "\<exists>r \<in> set (session_db ?w1). r2 = r\<lparr>last_used := last_used r2\<rparr>"
    then obtain r where r: "r \<in> set (session_db ?w1)" "r2 = r\<lparr>last_used := last_used r2\<rparr>"
      by blast
    have "email r2 = email r" "updated_at r2 = updated_at r"
      by (subst r(2), simp)+
    with primary_key_same_email [OF pk1 r(1) assms(4)] assms(6) show ?thesis
      by simp
  next
    assume "blob_binds_key P B r2 \<and> google_data r2 \<noteq> []
        \<and> updated_at r2 \<in> set (all_readings cs2)"
    then have t2: "updated_at r2 \<in> set (all_readings cs2)" by simp
    from run_world [OF assms(4)] show ?thesis
    proof
      assume "\<exists>r \<in> set (session_db w). r1 = r\<lparr>last_used := last_used r1\<rparr>"
      then obtain r where r: "r \<in> set (session_db w)" "r1 = r\<lparr>last_used := last_used r1\<rparr>"
        by blast
      have "updated_at r1 = updated_at r"
        by (subst r(2)) simp
      with r(1) t2 assms(3) show ?thesis
        by (simp add: all_readings_append)
    next
      assume "blob_binds_key P B r1 \<and> google_data r1 \<noteq> []
        \<and> updated_at r1 \<in> set (all_readings cs1)"
      with t2 assms(2) show ?thesis
        by (simp add: all_readings_append sorted_append)
    qed
  qed
qed

text \<open>
  The theorem for a row stored at clock 5: the live blob of its identity has changed
  and a sync runs at clock 7; then the row is loaded at clock 8, the IDE stores the
  first blob again, and a sync runs at clock 9.
\<close>

theorem updated_at_only_advances_witness:
  "primary_key (session_db \<lparr>ag_db = live_u_renamed, session_db = [u_row 5]\<rparr>)
 \<and> sorted (all_readings ([Sync 7] @ [Load ''u@x.com'' 8, IdeWrites live_u, Sync 9]))
 \<and> run example_parse example_bind [Sync 7] \<lparr>ag_db = live_u_renamed, session_db = [u_row 5]\<rparr>
     = \<lparr>ag_db = live_u_renamed,
         session_db = [(u_row 5)\<lparr>auth_status := u_auth_renamed, updated_at := 7\<rparr>]\<rparr>
 \<and> run example_parse example_bind ([Sync 7] @ [Load ''u@x.com'' 8, IdeWrites live_u, Sync 9])
       \<lparr>ag_db = live_u_renamed, session_db = [u_row 5]\<rparr>
     = \<lparr>ag_db = live_u, session_db = [(u_row 5)\<lparr>last_used := 8, updated_at := 9\<rparr>]\<rparr>
 \<and> updated_at ((u_row 5)\<lparr>auth_status := u_auth_renamed, updated_at := 7\<rparr>)
       \<le> updated_at ((u_row 5)\<lparr>last_used := 8, updated_at := 9\<rparr>)"
proof -
  let ?w = "\<lparr>ag_db = live_u_renamed, session_db = [u_row 5]\<rparr>"
  let ?r1 = "(u_row 5)\<lparr>auth_status := u_auth_renamed, updated_at := 7\<rparr>"
  let ?w1 = "\<lparr>ag_db = live_u_renamed, session_db = [?r1]\<rparr>"
  let ?r2 = "(u_row 5)\<lparr>last_used := 8, updated_at := 9\<rparr>"
  let ?w2 = "\<lparr>ag_db = live_u, session_db = [?r2]\<rparr>"
  let ?cs2 = "[Load ''u@x.com'' 8, IdeWrites live_u, Sync 9]"
  have pk: "primary_key (session_db ?w)"
    by (simp add: primary_key_def)
  have clock: "sorted (all_readings ([Sync 7] @ ?cs2))"
    by (simp add: all_readings_def)
  have past: "\<forall>r \<in> set (session_db ?w). \<forall>t \<in> set (all_readings ([Sync 7] @ ?cs2)). updated_at r \<le> t"
    by (simp add: all_readings_def u_row_def)
  have run1: "run example_parse example_bind [Sync 7] ?w = ?w1"
    using u_auth_differs
    by (simp add: syncCurrent_def read_live_u_renamed select_by_email_def update_blobs_def u_row_def)
  have run2: "run example_parse example_bind ?cs2 ?w1 = ?w2"
    using u_auth_differs
    by (simp add: syncCurrent_def read_live_u select_by_email_def update_blobs_def
        update_last_used_def loadByEmail_def loadSession_def u_row_def)
  have run12: "run example_parse example_bind ([Sync 7] @ ?cs2) ?w = ?w2"
    by (simp only: run_append run1 run2)
  have r1: "?r1 \<in> set (session_db (run example_parse example_bind [Sync 7] ?w))"
    by (simp only: run1) simp
  have r2: "?r2 \<in> set (session_db (run example_parse example_bind ([Sync 7] @ ?cs2) ?w))"
    by (simp only: run12) simp
  have same: "email ?r2 = email ?r1"
    by simp
  from updated_at_only_advances [OF pk clock past r1 r2 same] pk clock run1 run12
  show ?thesis by blast
qed

text \<open>
  C9 as stated fails when the clock is set back between two runs: a row stored with
  \<open>updated_at = 2000\<close>, the live blob of its identity changed, and a sync that reads
  the clock at 1000 leaves the row with \<open>updated_at = 1000\<close>.
\<close>

theorem updated_at_clock_counterexample:
  "run example_parse example_bind [Sync 1000] \<lparr>ag_db = live_u_renamed, session_db = [u_row 2000]\<rparr>
     = \<lparr>ag_db = live_u_renamed,
         session_db = [(u_row 2000)\<lparr>auth_status := u_auth_renamed, updated_at := 1000\<rparr>]\<rparr>
 \<and> updated_at (u_row 2000) = 2000
 \<and> updated_at ((u_row 2000)\<lparr>auth_status := u_auth_renamed, updated_at := 1000\<rparr>) = 1000
 \<and> \<not> updated_at (u_row 2000)
       \<le> updated_at ((u_row 2000)\<lparr>auth_status := u_auth_renamed, updated_at := 1000\<rparr>)"
  using u_auth_differs
  by (simp add: syncCurrent_def read_live_u_renamed select_by_email_def update_blobs_def u_row_def)

text \<open>
  C10 (as amended). After any run of commands, a row of the table either has the key
  and the auth blob of a row that was there before the run, or its auth blob binds to
  its key: the blob parses, its \<open>email\<close> property is truthy, and the text of that value
  in the column is the key. What \<open>syncCurrent\<close> inserts or updates has this invariant,
  and the update of \<open>last_used\<close> and the deletion keep it; so when every row had it
  before the run (as in the empty table), every row has it afterwards. Where the
  \<open>email\<close> property of the blob is a string, as the program declares it, the invariant
  says that this string is the key, and is not empty. And for a row whose blob names
  its key in this way, the identity read from the live store after \<open>loadSession\<close> is the
  key of the row.
\<close>

theorem written_rows_bind_their_key:
  assumes "r' \<in> set (session_db (run P B cs w))"
  shows "(blob_binds_key P B r'
          \<or> (\<exists>r \<in> set (session_db w). email r = email r' \<and> auth_status r = auth_status r'))
       \<and> ((\<forall>r \<in> set (session_db w). blob_binds_key P B r) \<longrightarrow> blob_binds_key P B r')
       \<and> (blob_binds_key P B r' \<and> blob_email_is_string P r' \<longrightarrow>
            blob_names_key P r' \<and> email r' \<noteq> [])
       \<and> (blob_names_key P r' \<and> email r' \<noteq> []
            \<and> select_by_email (session_db (run P B cs w)) (email r') = Some r' \<longrightarrow>
          (\<exists>c. getCurrentSession P (ag_db (snd (loadSession now (email r') (run P B cs w))))
                  = ([], Some c)
                \<and> email c = JString (email r')))"
proof -
  have origin: "blob_binds_key P B r'
          \<or> (\<exists>r \<in> set (session_db w). email r = email r' \<and> auth_status r = auth_status r')"
    using run_world [OF assms]
  proof
    assume "\<exists>r \<in> set (session_db w). r' = r\<lparr>last_used := last_used r'\<rparr>"
    then obtain r where r: "r \<in> set (session_db w)" "r' = r\<lparr>last_used := last_used r'\<rparr>"
      by blast
    from arg_cong [OF r(2), of email] arg_cong [OF r(2), of auth_status]
    have "email r = email r'" "auth_status r = auth_status r'"
      by simp_all
    with r(1) show ?thesis by blast
  next
    assume "blob_binds_key P B r' \<and> google_data r' \<noteq> []
        \<and> updated_at r' \<in> set (all_readings cs)"
    then show ?thesis by simp
  qed
  have kept: "blob_binds_key P B r'" if "\<forall>r \<in> set (session_db w). blob_binds_key P B r"
    using origin
  proof
    assume "blob_binds_key P B r'"
    then show ?thesis .
  next
    assume "\<exists>r \<in> set (session_db w). email r = email r' \<and> auth_status r = auth_status r'"
    then obtain r where r: "r \<in> set (session_db w)" "email r = email r'" "auth_status r = auth_status r'"
      by blast
    from that r(1) have "blob_binds_key P B r" by blast
    with blob_binds_key_cong [OF r(2,3), of P B] show ?thesis by simp
  qed
  have string: "blob_names_key P r' \<and> email r' \<noteq> []"
    if "blob_binds_key P B r' \<and> blob_email_is_string P r'"
    using that binds_string_names_key [of P B r'] by blast
  have round: "\<exists>c. getCurrentSession P (ag_db (snd (loadSession now (email r') (run P B cs w))))
                  = ([], Some c)
                \<and> email c = JString (email r')"
    if "blob_names_key P r' \<and> email r' \<noteq> []
        \<and> select_by_email (session_db (run P B cs w)) (email r') = Some r'"
    using that getCurrentSession_after_write [of P r' "ag_db (run P B cs w)"]
    by (simp add: loadSession_found)
  from origin kept string round show ?thesis by blast
qed

text \<open>
  The theorem for a run from the empty table: the sync scenario, a load, the deletion
  of an identity that is not stored, the IDE storing another blob for the same
  identity, and a second sync.
\<close>

theorem written_rows_bind_their_key_witness:
  "run example_parse example_bind
       [Sync 7, Load ''u@x.com'' 8, Delete ''z@x.com'', IdeWrites live_u_renamed, Sync 9]
       \<lparr>ag_db = live_u, session_db = []\<rparr>
     = \<lparr>ag_db = live_u_renamed,
         session_db = [(u_row 7)\<lparr>auth_status := u_auth_renamed, last_used := 8, updated_at := 9\<rparr>]\<rparr>
 \<and> blob_binds_key example_parse example_bind
       ((u_row 7)\<lparr>auth_status := u_auth_renamed, last_used := 8, updated_at := 9\<rparr>)
 \<and> blob_email_is_string example_parse
       ((u_row 7)\<lparr>auth_status := u_auth_renamed, last_used := 8, updated_at := 9\<rparr>)
 \<and> blob_names_key example_parse
       ((u_row 7)\<lparr>auth_status := u_auth_renamed, last_used := 8, updated_at := 9\<rparr>)
 \<and> (\<exists>c.
        getCurrentSession example_parse
          (ag_db (snd (loadSession 10 ''u@x.com''
             \<lparr>ag_db = live_u_renamed,
                session_db = [(u_row 7)\<lparr>auth_status := u_auth_renamed, last_used := 8, updated_at := 9\<rparr>]\<rparr>)))
          = ([], Some c)
      \<and> email c = JString ''u@x.com'')"
proof -
  let ?cs = "[Sync 7, Load ''u@x.com'' 8, Delete ''z@x.com'', IdeWrites live_u_renamed, Sync 9]"
  let ?w = "\<lparr>ag_db = live_u, session_db = []\<rparr>"
  let ?r = "(u_row 7)\<lparr>auth_status := u_auth_renamed, last_used := 8, updated_at := 9\<rparr>"
  let ?w' = "\<lparr>ag_db = live_u_renamed, session_db = [?r]\<rparr>"
  have run: "run example_parse example_bind ?cs ?w = ?w'"
    using u_auth_differs
    by (simp add: syncCurrent_def read_live_u read_live_u_renamed select_by_email_def
        insert_session_def update_blobs_def update_last_used_def delete_by_email_def
        loadByEmail_def loadSession_def deleteSession_def u_row_def)
  have before: "\<forall>r \<in> set (session_db ?w). blob_binds_key example_parse example_bind r"
    by simp
  have "?r \<in> set (session_db (run example_parse example_bind ?cs ?w))"
    by (simp only: run) simp
  note inst = written_rows_bind_their_key [OF this, of 10]
  from inst before have binds: "blob_binds_key example_parse example_bind ?r"
    by blast
  have str: "blob_email_is_string example_parse ?r"
    by (simp add: blob_email_is_string_def example_parse_def u_row_def u_auth_def u_auth_renamed_def)
  from inst binds str have key: "blob_names_key example_parse ?r" and ne: "email ?r \<noteq> []"
    by blast+
  have em: "email ?r = ''u@x.com''"
    and sel: "select_by_email (session_db (run example_parse example_bind ?cs ?w)) (email ?r) = Some ?r"
    by (simp_all only: run) (simp_all add: select_by_email_def u_row_def)
  from inst key ne sel
  have "\<exists>c. getCurrentSession example_parse
          (ag_db (snd (loadSession 10 (email ?r) (run example_parse example_bind ?cs ?w)))) = ([], Some c)
      \<and> email c = JString (email ?r)"
    by blast
  then have "\<exists>c. getCurrentSession example_parse (ag_db (snd (loadSession 10 ''u@x.com'' ?w'))) = ([], Some c)
      \<and> email c = JString ''u@x.com''"
    by (simp only: run em)
  with run binds str key show ?thesis by blast
qed

text \<open>
  C10 as stated fails for a live auth blob whose \<open>email\<close> is \<open>true\<close>: the value is
  truthy, \<open>syncCurrent\<close> binds it, and the row is stored under the key \<open>1\<close>, beside a
  blob whose \<open>email\<close> is not that key.
\<close>

theorem written_row_key_counterexample:
  "run example_parse example_bind [Sync 7] \<lparr>ag_db = live_true, session_db = []\<rparr>
     = \<lparr>ag_db = live_true, session_db = [true_row 7]\<rparr>
 \<and> email (true_row 7) = ''1''
 \<and> example_parse (auth_status (true_row 7)) = Some (JObject [(''email'', JBool True)])
 \<and> \<not> blob_names_key example_parse (true_row 7)"
  by (simp add: syncCurrent_def read_live_true bound_true select_by_email_def insert_session_def
      true_row_def blob_names_key_def example_parse_def u_auth_def u_auth_renamed_def true_auth_def)

end
